theory Spec2Isabelle
  imports Main "HOL-Library.AList"
begin

section \<open>JavaScript values\<close>

text \<open>
  The scripts compute on dynamically typed JavaScript values: parsed JSON parameters,
  spreadsheet cells and the records built from them. One datatype covers them.
  An object is the list of its own enumerable properties in insertion order, which is the
  order in which \<^verbatim>\<open>for (var key in obj)\<close> visits them.

  Scope of the model. Numbers are integers (row numbers, column indices and revision
  numbers are; JavaScript computes on them exactly below \<open>2^53\<close>). Strings are lists of
  8-bit characters. \<^verbatim>\<open>Date\<close> cells are not represented. Canonical array indices used
  as names of a plain object (which \<^verbatim>\<open>for-in\<close> visits first, in numeric order) are
  outside the model.

  The names that JavaScript treats specially on the configuration object,
  \<^verbatim>\<open>hasOwnProperty\<close>, \<^verbatim>\<open>__proto__\<close> and \<^verbatim>\<open>toString\<close>, are modelled where the configuration is
  built and read (\<open>plain_object\<close> below). Outside the model are fields named
  \<^verbatim>\<open>__proto__\<close> or \<^verbatim>\<open>hasOwnProperty\<close> in the records built from the rows, and the
  conversion to a string of a parsed object that has a property \<^verbatim>\<open>toString\<close> or
  \<^verbatim>\<open>valueOf\<close> of its own.
\<close>

datatype jsval =
    Undefined
  | Null
  | Bool bool
  | Num int
  | Str string
  | Arr "jsval list"
  | Obj "(string \<times> jsval) list"

type_synonym jsobj = "(string \<times> jsval) list"

datatype error =
    Error string
  | TypeError

text \<open>Truthiness, as \<^verbatim>\<open>!v\<close>, \<^verbatim>\<open>a || b\<close> and \<^verbatim>\<open>if (v)\<close> see it.\<close>

fun truthy :: "jsval \<Rightarrow> bool" where
  "truthy Undefined = False"
| "truthy Null = False"
| "truthy (Bool b) = b"
| "truthy (Num n) = (n \<noteq> 0)"
| "truthy (Str s) = (s \<noteq> [])"
| "truthy (Arr xs) = True"
| "truthy (Obj es) = True"

fun nullish :: "jsval \<Rightarrow> bool" where
  "nullish Undefined = True"
| "nullish Null = True"
| "nullish v = False"

fun isArray :: "jsval \<Rightarrow> bool" where
  "isArray (Arr xs) = True"
| "isArray v = False"

text \<open>\<^verbatim>\<open>typeof v === 'object' && v !== null\<close>\<close>

fun is_object :: "jsval \<Rightarrow> bool" where
  "is_object (Arr xs) = True"
| "is_object (Obj es) = True"
| "is_object v = False"

text \<open>Decimal notation of a natural number, for row numbers and array indices.\<close>

fun show_nat :: "nat \<Rightarrow> string" where
  "show_nat n =
     (if n < 10 then [''0123456789'' ! n]
      else show_nat (n div 10) @ [''0123456789'' ! (n mod 10)])"

declare show_nat.simps [simp del]

fun join :: "string \<Rightarrow> string list \<Rightarrow> string" where
  "join sep [] = []"
| "join sep [s] = s"
| "join sep (s # t # ts) = s @ sep @ join sep (t # ts)"

text \<open>\<^verbatim>\<open>String(v)\<close>; an array is its elements joined by commas, \<^verbatim>\<open>null\<close> and
  \<^verbatim>\<open>undefined\<close> elements giving the empty string.\<close>

fun js_String :: "jsval \<Rightarrow> string" where
  "js_String Undefined = ''undefined''"
| "js_String Null = ''null''"
| "js_String (Bool b) = (if b then ''true'' else ''false'')"
| "js_String (Num n) = (if n < 0 then ''-'' @ show_nat (nat (- n)) else show_nat (nat n))"
| "js_String (Str s) = s"
| "js_String (Arr xs) = join '','' (map (\<lambda>x. if nullish x then [] else js_String x) xs)"
| "js_String (Obj es) = ''[object Object]''"

text \<open>\<^verbatim>\<open>s.trim()\<close>: white space and line terminators are removed at both ends.\<close>

definition is_space :: "char \<Rightarrow> bool" where
  "is_space c \<longleftrightarrow>
     c \<in> set [CHR 0x09, CHR 0x0A, CHR 0x0B, CHR 0x0C, CHR 0x0D, CHR 0x20, CHR 0xA0]"

definition js_trim :: "string \<Rightarrow> string" where
  "js_trim s = rev (dropWhile is_space (rev (dropWhile is_space s)))"

text \<open>A text between single quotes, as the messages of the scripts show names.\<close>

definition quoted :: "string \<Rightarrow> string" where
  "quoted s = [CHR 0x27] @ s @ [CHR 0x27]"

text \<open>Reading a property of an object, \<^verbatim>\<open>obj[k]\<close>: \<^verbatim>\<open>undefined\<close> when there is none.\<close>

definition obj_get :: "jsobj \<Rightarrow> string \<Rightarrow> jsval" where
  "obj_get obj k = (case map_of obj k of Some v \<Rightarrow> v | None \<Rightarrow> Undefined)"

text \<open>
  \<^verbatim>\<open>v.k\<close> on a value that is neither \<^verbatim>\<open>null\<close> nor \<^verbatim>\<open>undefined\<close> (on those the read throws
  a TypeError, which each caller checks with \<open>nullish\<close> first). The names the scripts read
  (\<^verbatim>\<open>Name\<close>, \<^verbatim>\<open>object_label\<close>, \<^verbatim>\<open>object_api_name\<close>, \<^verbatim>\<open>opportunity_id__c\<close>) are not
  properties of a number, a boolean, a string or an array.
\<close>

fun js_get :: "jsval \<Rightarrow> string \<Rightarrow> jsval" where
  "js_get (Obj es) k = obj_get es k"
| "js_get v k = Undefined"

text \<open>\<^verbatim>\<open>xs[i]\<close> on an array: \<^verbatim>\<open>undefined\<close> out of range.\<close>

definition js_index :: "jsval list \<Rightarrow> nat \<Rightarrow> jsval" where
  "js_index xs i = (if i < length xs then xs ! i else Undefined)"

text \<open>The own enumerable properties that \<^verbatim>\<open>for (var key in v)\<close> visits, in order.\<close>

fun for_in :: "jsval \<Rightarrow> (string \<times> jsval) list" where
  "for_in (Obj es) = es"
| "for_in (Arr xs) = zip (map show_nat [0..<length xs]) xs"
| "for_in (Str s) = zip (map show_nat [0..<length s]) (map (\<lambda>c. Str [c]) s)"
| "for_in v = []"

text \<open>
  Writing a property, \<^verbatim>\<open>obj[k] = v\<close>, is \<^const>\<open>AList.update\<close>: an existing property keeps
  its place and takes the new value, a new one is added at the end.
\<close>

section \<open>loadParametersFromJson\<close>

text \<open>\<^verbatim>\<open>arr.push(v)\<close>\<close>

fun push :: "jsval \<Rightarrow> jsval \<Rightarrow> jsval" where
  "push (Arr xs) v = Arr (xs @ [v])"
| "push a v = a"

text \<open>
  The configuration object \<^verbatim>\<open>params\<close>: its own properties and its prototype. It starts as
  \<^verbatim>\<open>{}\<close>, whose prototype is \<^verbatim>\<open>Object.prototype\<close> (\<open>None\<close>); a row with the key \<^verbatim>\<open>__proto__\<close>
  can replace the prototype by a parsed value (\<open>Some v\<close>).
\<close>

record plain_object =
  properties :: jsobj
  prototype :: "jsval option"

text \<open>
  Whether \<^verbatim>\<open>params.name\<close>, for the name of a method of \<^verbatim>\<open>Object.prototype\<close>, is a function.
  It is not when \<^verbatim>\<open>params\<close> has an own property of that name, when its prototype is
  \<^verbatim>\<open>null\<close>, or when its prototype is a parsed object with an own property of that name:
  parsed values are never functions. The scripts call \<^verbatim>\<open>params.hasOwnProperty(key)\<close>, which
  then throws a TypeError with the message \<open>not_a_function\<close> (the text is the one of the
  V8 engine; no theorem depends on it), and they concatenate \<^verbatim>\<open>params\<close> to a string, which
  calls \<^verbatim>\<open>params.toString\<close> and throws a TypeError when that is no function.
\<close>

definition callable_method :: "string \<Rightarrow> plain_object \<Rightarrow> bool" where
  "callable_method name params \<longleftrightarrow>
     map_of (properties params) name = None \<and>
     (case prototype params of
        None \<Rightarrow> True
      | Some Null \<Rightarrow> False
      | Some (Obj es) \<Rightarrow> map_of es name = None
      | Some v \<Rightarrow> True)"

definition not_a_function :: string where
  "not_a_function = ''params.hasOwnProperty is not a function''"

text \<open>
  \<^verbatim>\<open>params[key] = value\<close> for a key that is not an own property of \<^verbatim>\<open>params\<close>. The name
  \<^verbatim>\<open>__proto__\<close> reaches the setter of \<^verbatim>\<open>Object.prototype\<close>, which replaces the prototype
  when the value is an object, an array or \<^verbatim>\<open>null\<close>, and does nothing otherwise; no own
  property is created. (When the prototype is a parsed object that itself has an own
  property \<^verbatim>\<open>__proto__\<close>, that data property is found first and the assignment creates an
  own property, as for every other name.)
\<close>

definition set_new :: "plain_object \<Rightarrow> string \<Rightarrow> jsval \<Rightarrow> plain_object" where
  "set_new params key value =
     (if key = ''__proto__'' \<and>
         \<not> (case prototype params of Some (Obj es) \<Rightarrow> map_of es ''__proto__'' \<noteq> None | _ \<Rightarrow> False)
      then (if is_object value \<or> value = Null then params\<lparr>prototype := Some value\<rparr> else params)
      else params\<lparr>properties := AList.update key value (properties params)\<rparr>)"

text \<open>
  The body of the loop over the keys of one parsed row: the new object, or the message of
  the exception thrown.
\<close>

definition aggregate :: "plain_object \<Rightarrow> string \<times> jsval \<Rightarrow> string + plain_object" where
  "aggregate params kv =
     (case kv of (key, value) \<Rightarrow>
        if \<not> callable_method ''hasOwnProperty'' params then Inl not_a_function
        else
          (case map_of (properties params) key of
             Some held \<Rightarrow>
               (let arr = (if \<not> isArray held then Arr [held] else held)
                in Inr (params\<lparr>properties :=
                          AList.update key (push arr value) (properties params)\<rparr>))
           | None \<Rightarrow> Inr (set_new params key value)))"

text \<open>The loop over the keys of one parsed row, which an exception leaves.\<close>

fun aggregate_row :: "plain_object \<Rightarrow> (string \<times> jsval) list \<Rightarrow> string + plain_object" where
  "aggregate_row params [] = Inr params"
| "aggregate_row params (kv # rest) =
     (case aggregate params kv of
        Inl message \<Rightarrow> Inl message
      | Inr params' \<Rightarrow> aggregate_row params' rest)"

text \<open>
  The loop over the rows from \<open>startRow\<close> on. \<open>i\<close> is the 0-based index of the first cell
  of the list, \<open>JSON_parse\<close> is \<^verbatim>\<open>JSON.parse\<close>: the parsed value, or the message of the
  exception it throws. The \<^verbatim>\<open>try\<close> block holds the parse and the loop over the keys, and
  the \<^verbatim>\<open>catch\<close> rethrows whatever either throws under the same text.
\<close>

fun load_rows ::
  "(string \<Rightarrow> string + jsval) \<Rightarrow> nat \<Rightarrow> jsval list \<Rightarrow> plain_object \<Rightarrow> error + plain_object" where
  "load_rows JSON_parse i [] params = Inr params"
| "load_rows JSON_parse i (cell # rest) params =
     (let cellValue = js_trim (js_String cell) in
      if cellValue = [] then load_rows JSON_parse (i + 1) rest params
      else
        (case JSON_parse cellValue of
           Inl message \<Rightarrow>
             Inl (Error (''Error parsing JSON at row '' @ show_nat (i + 1) @ '': '' @ message))
         | Inr parsed \<Rightarrow>
             (case aggregate_row params (for_in parsed) of
                Inl message \<Rightarrow>
                  Inl (Error (''Error parsing JSON at row '' @ show_nat (i + 1) @ '': '' @ message))
              | Inr params' \<Rightarrow> load_rows JSON_parse (i + 1) rest params')))"

definition start_row :: "(string \<Rightarrow> string + jsval) \<Rightarrow> jsval list \<Rightarrow> nat" where
  "start_row JSON_parse data =
     (case JSON_parse (js_trim (js_String (data ! 0))) of Inl message \<Rightarrow> 1 | Inr parsed \<Rightarrow> 0)"

text \<open>
  The argument is column A of the sheet \<^verbatim>\<open>JF_SCRIPT_PARAMS\<close>, rows 1 to the last row, or
  \<open>None\<close> when the spreadsheet has no such sheet.
\<close>

definition loadParametersFromJson ::
  "(string \<Rightarrow> string + jsval) \<Rightarrow> jsval list option \<Rightarrow> error + plain_object" where
  "loadParametersFromJson JSON_parse sheet =
     (case sheet of
        None \<Rightarrow> Inl (Error (''Sheet '' @ quoted ''JF_SCRIPT_PARAMS'' @ '' not found.''))
      | Some data \<Rightarrow>
          if length data < 1 then Inl (Error (''No data found in '' @ quoted ''JF_SCRIPT_PARAMS'' @ '' sheet.''))
          else
            (let startRow = start_row JSON_parse data
             in load_rows JSON_parse startRow (drop startRow data)
                  \<lparr>properties = [], prototype = None\<rparr>))"

text \<open>
  What \<^verbatim>\<open>for (var key in params)\<close> visits and \<^verbatim>\<open>params[key]\<close> reads: the own properties,
  then the enumerable properties of the prototype that no own property hides
  (\<^verbatim>\<open>Object.prototype\<close> has no enumerable property).
\<close>

definition enumerate_object :: "plain_object \<Rightarrow> jsobj" where
  "enumerate_object obj =
     properties obj @
     filter (\<lambda>kv. map_of (properties obj) (fst kv) = None)
       (case prototype obj of Some v \<Rightarrow> for_in v | None \<Rightarrow> [])"

text \<open>
  What the claims about the loader speak of: the top-level (key, value) pairs of the rows
  the loop parses, in the order in which it meets them, and the values one key has there.
\<close>

definition row_entries :: "(string \<Rightarrow> string + jsval) \<Rightarrow> jsval \<Rightarrow> (string \<times> jsval) list" where
  "row_entries JSON_parse cell =
     (let cellValue = js_trim (js_String cell) in
      if cellValue = [] then []
      else (case JSON_parse cellValue of Inl message \<Rightarrow> [] | Inr parsed \<Rightarrow> for_in parsed))"

definition top_level_entries ::
  "(string \<Rightarrow> string + jsval) \<Rightarrow> jsval list \<Rightarrow> (string \<times> jsval) list" where
  "top_level_entries JSON_parse data =
     concat (map (row_entries JSON_parse) (drop (start_row JSON_parse data) data))"

definition occurrences :: "string \<Rightarrow> (string \<times> jsval) list \<Rightarrow> jsval list" where
  "occurrences key entries = map snd (filter (\<lambda>e. fst e = key) entries)"

text \<open>A cell the loop parses without an exception: blank after trimming, or valid JSON.\<close>

definition loads :: "(string \<Rightarrow> string + jsval) \<Rightarrow> jsval \<Rightarrow> bool" where
  "loads JSON_parse cell \<longleftrightarrow>
     js_trim (js_String cell) = [] \<or> \<not> isl (JSON_parse (js_trim (js_String cell)))"

text \<open>
  A key other than the two names that are special on \<^verbatim>\<open>params\<close>, and what the loop body
  does to the own properties for such a key while \<^verbatim>\<open>params.hasOwnProperty\<close> can be called.
\<close>

definition ordinary_key :: "string \<Rightarrow> bool" where
  "ordinary_key key \<longleftrightarrow> key \<noteq> ''hasOwnProperty'' \<and> key \<noteq> ''__proto__''"

definition store :: "jsobj \<Rightarrow> string \<times> jsval \<Rightarrow> jsobj" where
  "store own kv =
     (case kv of (key, value) \<Rightarrow>
        (case map_of own key of
           Some held \<Rightarrow>
             (let arr = (if \<not> isArray held then Arr [held] else held)
              in AList.update key (push arr value) own)
         | None \<Rightarrow> AList.update key value own))"

text \<open>
  The value a key holds once the values \<open>vs\<close> were aggregated under it in this order, and
  one step of the aggregation as the stored value of that key sees it.
\<close>

fun merged :: "jsval list \<Rightarrow> jsval option" where
  "merged [] = None"
| "merged [v] = Some v"
| "merged (v # w # ws) = Some (Arr ((case v of Arr xs \<Rightarrow> xs | _ \<Rightarrow> [v]) @ w # ws))"

definition merge_step :: "jsval option \<Rightarrow> jsval \<Rightarrow> jsval option" where
  "merge_step cur v =
     Some (case cur of None \<Rightarrow> v
           | Some held \<Rightarrow> push (if \<not> isArray held then Arr [held] else held) v)"

section \<open>buildDataTableFromParamsDynamic\<close>

text \<open>A resolved mapping \<^verbatim>\<open>{ api: apiName, col: j }\<close>.\<close>

type_synonym mapping = "jsval \<times> nat"

text \<open>
  The scan of the header row for one label, \<open>j\<close> being the index of the first cell of the
  list: the index at which the loop breaks, or \<open>None\<close> when it runs to the end
  (\<^verbatim>\<open>found\<close> stays false).
\<close>

fun scan_header :: "jsval list \<Rightarrow> string \<Rightarrow> nat \<Rightarrow> nat option" where
  "scan_header [] labelToFind j = None"
| "scan_header (h # hs) labelToFind j =
     (if js_trim (js_String h) = labelToFind then Some j
      else scan_header hs labelToFind (j + 1))"

text \<open>
  The loop over the elements of one group. The state is the mapping list of the group and
  the log of warnings. Reading a property of a \<^verbatim>\<open>null\<close> element throws.
\<close>

fun map_group ::
  "jsval list \<Rightarrow> string \<Rightarrow> jsval list \<Rightarrow> mapping list \<times> string list \<Rightarrow>
   error + mapping list \<times> string list" where
  "map_group headerRow key [] st = Inr st"
| "map_group headerRow key (item # rest) (mappings, log) =
     (if nullish item then Inl TypeError
      else if \<not> truthy (js_get item ''object_label'') \<or> \<not> truthy (js_get item ''object_api_name'')
      then map_group headerRow key rest (mappings, log)
      else
        (let labelToFind = js_trim (js_String (js_get item ''object_label''));
             apiName = js_get item ''object_api_name''
         in case scan_header headerRow labelToFind 0 of
              Some j \<Rightarrow> map_group headerRow key rest (mappings @ [(apiName, j)], log)
            | None \<Rightarrow>
                map_group headerRow key rest
                  (mappings,
                   log @ [''Warning: Header label '' @ quoted labelToFind @ '' for group '' @
                          quoted key @ '' not found.''])))"

text \<open>\<^verbatim>\<open>Array.isArray(groupData) ? groupData : [groupData]\<close>\<close>

definition group_array :: "jsval \<Rightarrow> jsval list" where
  "group_array groupData = (case groupData of Arr xs \<Rightarrow> xs | _ \<Rightarrow> [groupData])"

text \<open>The loop over the keys of the parameters.\<close>

fun map_params ::
  "jsval list \<Rightarrow> jsobj \<Rightarrow> (string \<times> mapping list) list \<times> string list \<Rightarrow>
   error + (string \<times> mapping list) list \<times> string list" where
  "map_params headerRow [] st = Inr st"
| "map_params headerRow ((key, groupData) # rest) (overallMapping, log) =
     (if key = ''Input Sheet'' \<or> key = ''Table Header Row''
      then map_params headerRow rest (overallMapping, log)
      else
        (let groupArray = group_array groupData
         in case map_group headerRow key groupArray ([], log) of
              Inl e \<Rightarrow> Inl e
            | Inr (mappings, log') \<Rightarrow>
                map_params headerRow rest (AList.update key mappings overallMapping, log')))"

text \<open>The body of the loop over the groups, for one row: what one group writes.\<close>

definition build_group :: "jsval list \<Rightarrow> jsobj \<Rightarrow> string \<times> mapping list \<Rightarrow> jsobj" where
  "build_group row record g =
     (case g of (groupKey, mappings) \<Rightarrow>
        if length mappings = 0 then record
        else if length mappings = 1
        then AList.update (js_String (fst (mappings ! 0))) (js_index row (snd (mappings ! 0))) record
        else
          AList.update groupKey
            (Obj (foldl (\<lambda>nested m. AList.update (js_String (fst m)) (js_index row (snd m)) nested)
                    [] mappings))
            record)"

definition build_record :: "(string \<times> mapping list) list \<Rightarrow> jsval list \<Rightarrow> jsobj" where
  "build_record overallMapping row = foldl (build_group row) [] overallMapping"

text \<open>The loop over the data rows, which breaks at the first row whose first cell is blank.\<close>

fun build_rows :: "(string \<times> mapping list) list \<Rightarrow> jsval list list \<Rightarrow> jsobj list" where
  "build_rows overallMapping [] = []"
| "build_rows overallMapping (row # rest) =
     (if js_index row 0 = Str [] \<or> js_index row 0 = Null then []
      else build_record overallMapping row # build_rows overallMapping rest)"

text \<open>
  The spreadsheet, as far as the scripts read it: column A of the parameter sheet, and for a
  sheet name the values of the two ranges read from that sheet, the header row and the rows
  below it, both addressed by the configured header row number.

  The function first logs \<^verbatim>\<open>"Your Parames Are: " + params\<close>, which throws a TypeError when
  \<^verbatim>\<open>params.toString\<close> is no function; reading \<^verbatim>\<open>.Name\<close> of a missing parameter throws one
  too.
\<close>

record input_sheet =
  header_values :: "jsval \<Rightarrow> jsval list"
  data_values :: "jsval \<Rightarrow> jsval list list"

record spreadsheet =
  JF_SCRIPT_PARAMS :: "jsval list option"
  getSheetByName :: "jsval \<Rightarrow> input_sheet option"

definition buildDataTableFromParamsDynamic ::
  "(string \<Rightarrow> string + jsval) \<Rightarrow> spreadsheet \<Rightarrow> error + jsobj list" where
  "buildDataTableFromParamsDynamic JSON_parse ss =
     (case loadParametersFromJson JSON_parse (JF_SCRIPT_PARAMS ss) of
        Inl e \<Rightarrow> Inl e
      | Inr loaded \<Rightarrow>
          (let params = enumerate_object loaded in
          if \<not> callable_method ''toString'' loaded then Inl TypeError
          else if nullish (obj_get params ''Input Sheet'') \<or> nullish (obj_get params ''Table Header Row'')
          then Inl TypeError
          else
            (let inputSheetName = js_get (obj_get params ''Input Sheet'') ''Name'';
                 headerRowNumber = js_get (obj_get params ''Table Header Row'') ''Name''
             in case getSheetByName ss inputSheetName of
                  None \<Rightarrow>
                    Inl (Error (''Input sheet '' @ quoted (js_String inputSheetName) @ '' not found.''))
                | Some sheet \<Rightarrow>
                    (case map_params (header_values sheet headerRowNumber) params ([], []) of
                       Inl e \<Rightarrow> Inl e
                     | Inr (overallMapping, log) \<Rightarrow>
                         Inr (build_rows overallMapping (data_values sheet headerRowNumber))))))"

section \<open>formatOLIs\<close>

text \<open>\<^verbatim>\<open>obj[k] = v\<close> for a pair \<open>(k, v)\<close>.\<close>

definition assign :: "jsobj \<Rightarrow> string \<times> jsval \<Rightarrow> jsobj" where
  "assign obj kv = AList.update (fst kv) (snd kv) obj"

text \<open>The body of the loop over the keys of one record.\<close>

definition flatten_key :: "jsobj \<Rightarrow> string \<times> jsval \<Rightarrow> jsobj" where
  "flatten_key flatRecord kv =
     (if is_object (snd kv) then foldl assign flatRecord (for_in (snd kv))
      else assign flatRecord kv)"

definition flatten_record :: "jsobj \<Rightarrow> jsobj" where
  "flatten_record record = foldl flatten_key [] record"

definition formatOLIs :: "jsobj list \<Rightarrow> jsobj list" where
  "formatOLIs oliData = map flatten_record oliData"

section \<open>The remote store\<close>

text \<open>
  The field \<^verbatim>\<open>Version_Number__c\<close> of a record of the query response: missing, \<^verbatim>\<open>null\<close>,
  or a number. The response body is modelled by its \<^verbatim>\<open>records\<close>, each record by that
  field, \<open>None\<close> standing for a body without \<^verbatim>\<open>records\<close> (an error payload).
\<close>

datatype sf_number =
    FieldUndefined
  | FieldNull
  | FieldNum int

text \<open>\<^verbatim>\<open>v || 0\<close>\<close>

fun or_zero :: "sf_number \<Rightarrow> int" where
  "or_zero (FieldNum n) = (if n \<noteq> 0 then n else 0)"
| "or_zero v = 0"

definition getHighestRevisionNumber :: "sf_number list option \<Rightarrow> int" where
  "getHighestRevisionNumber records =
     (case records of
        Some (first # rest) \<Rightarrow> or_zero first
      | _ \<Rightarrow> 0)"

text \<open>
  The remote calls of one run, each a function of what the script sends, giving the parsed
  response or the exception thrown (a failed token request, a transport error): the
  deactivation of the active line items of a parent, the query for its highest revision
  and the composite insert.
\<close>

record remote =
  deactivateAllActiveLineItems :: "jsval \<Rightarrow> error + jsval"
  query_highest_revision :: "jsval \<Rightarrow> error + sf_number list option"
  post_records :: "jsobj list \<Rightarrow> error + jsval"

text \<open>
  The record \<^verbatim>\<open>createLineItems\<close> sends for one item. \<open>times100\<close> is the JavaScript
  expression \<^verbatim>\<open>100 * v\<close>, a floating-point product after a conversion to a number, which
  is outside this model and a parameter of it.
\<close>

definition line_item_record :: "(jsval \<Rightarrow> jsval) \<Rightarrow> jsval \<Rightarrow> jsobj \<Rightarrow> jsobj" where
  "line_item_record times100 oppId item =
     (let item1 = AList.update ''opportunity_id__c'' oppId item;
          item2 = AList.update ''Sales_Discount__c''
                    (times100 (obj_get item1 ''Sales_Discount__c'')) item1
      in foldl assign [(''attributes'', Obj [(''type'', Str ''jellyfish_line_item__c'')])] item2)"

text \<open>
  \<^verbatim>\<open>createLineItems\<close> returns the parsed response; the model returns with it the records
  of the request it sent, of which the claims about submitted records speak.
\<close>

definition createLineItems ::
  "(jsval \<Rightarrow> jsval) \<Rightarrow> remote \<Rightarrow> jsval \<Rightarrow> jsobj list \<Rightarrow> error + jsobj list \<times> jsval" where
  "createLineItems times100 sf oppId lineItems =
     (let records = map (line_item_record times100 oppId) lineItems
      in case post_records sf records of
           Inl e \<Rightarrow> Inl e
         | Inr json \<Rightarrow> Inr (records, json))"

section \<open>processOliRecords\<close>

text \<open>The body of the loop that augments each record (step 5).\<close>

definition stamp :: "jsval \<Rightarrow> int \<Rightarrow> jsobj \<Rightarrow> jsobj" where
  "stamp oppId newRevision record =
     AList.update ''Version_Number__c'' (Num newRevision)
       (AList.update ''Active__c'' (Bool True)
          (AList.update ''opportunity_id__c'' oppId record))"

text \<open>
  A completed run: the records of the insert request it sent, and the two results that its
  summary returns.
\<close>

record run =
  submitted :: "jsobj list"
  deactivation :: jsval
  insertion :: jsval

definition processOliRecords ::
  "(string \<Rightarrow> string + jsval) \<Rightarrow> (jsval \<Rightarrow> jsval) \<Rightarrow> spreadsheet \<Rightarrow> remote \<Rightarrow> error + run" where
  "processOliRecords JSON_parse times100 ss sf =
     (case loadParametersFromJson JSON_parse (JF_SCRIPT_PARAMS ss) of
        Inl e \<Rightarrow> Inl e
      | Inr params \<Rightarrow>
     (case buildDataTableFromParamsDynamic JSON_parse ss of
        Inl e \<Rightarrow> Inl e
      | Inr oliData \<Rightarrow>
     (case oliData of
        [] \<Rightarrow> Inl TypeError
      | first # others \<Rightarrow>
          if nullish (obj_get first ''jellyfish_line_item__c'') then Inl TypeError
          else
            (let oppId = js_get (obj_get first ''jellyfish_line_item__c'') ''opportunity_id__c''
             in case deactivateAllActiveLineItems sf oppId of
                  Inl e \<Rightarrow> Inl e
                | Inr deactivationResults \<Rightarrow>
               (case query_highest_revision sf oppId of
                  Inl e \<Rightarrow> Inl e
                | Inr records \<Rightarrow>
                    (let highestRevision = getHighestRevisionNumber records;
                         newRevision = highestRevision + 1;
                         stamped = map (stamp oppId newRevision) oliData;
                         formattedOliData = formatOLIs stamped
                     in case createLineItems times100 sf oppId formattedOliData of
                          Inl e \<Rightarrow> Inl e
                        | Inr (sent, insertionResults) \<Rightarrow>
                            Inr \<lparr>submitted = sent, deactivation = deactivationResults,
                                 insertion = insertionResults\<rparr>))))))"

section \<open>Notions the claims are stated with\<close>

text \<open>
  The column mapper in the words of the specification: the first header cell, from the
  left, whose trimmed text equals the label; the pair an element resolves to, if any; and
  the warning logged for an element whose label no header cell matches.
\<close>

definition first_match :: "jsval list \<Rightarrow> string \<Rightarrow> nat option" where
  "first_match headerRow label =
     find (\<lambda>j. js_trim (js_String (headerRow ! j)) = label) [0..<length headerRow]"

definition has_both :: "jsval \<Rightarrow> bool" where
  "has_both item \<longleftrightarrow>
     truthy (js_get item ''object_label'') \<and> truthy (js_get item ''object_api_name'')"

definition resolved_pairs :: "jsval list \<Rightarrow> jsval \<Rightarrow> mapping list" where
  "resolved_pairs headerRow item =
     (if has_both item
      then (case first_match headerRow (js_trim (js_String (js_get item ''object_label''))) of
              Some j \<Rightarrow> [(js_get item ''object_api_name'', j)]
            | None \<Rightarrow> [])
      else [])"

definition warnings_of :: "jsval list \<Rightarrow> string \<Rightarrow> jsval \<Rightarrow> string list" where
  "warnings_of headerRow key item =
     (if has_both item \<and>
         first_match headerRow (js_trim (js_String (js_get item ''object_label''))) = None
      then [''Warning: Header label '' @ quoted (js_trim (js_String (js_get item ''object_label''))) @
            '' for group '' @ quoted key @ '' not found.'']
      else [])"

definition is_group :: "string \<times> jsval \<Rightarrow> bool" where
  "is_group kv \<longleftrightarrow> fst kv \<noteq> ''Input Sheet'' \<and> fst kv \<noteq> ''Table Header Row''"

text \<open>
  What one group writes at the top level of the record of a row, and the names under which
  a list of groups writes there.
\<close>

definition group_writes :: "jsval list \<Rightarrow> string \<times> mapping list \<Rightarrow> (string \<times> jsval) list" where
  "group_writes row g =
     (case snd g of
        [] \<Rightarrow> []
      | [m] \<Rightarrow> [(js_String (fst m), js_index row (snd m))]
      | m # m' # ms \<Rightarrow>
          [(fst g, Obj (foldl assign [] (map (\<lambda>m. (js_String (fst m), js_index row (snd m)))
                                          (m # m' # ms))))])"

definition written_keys :: "(string \<times> mapping list) list \<Rightarrow> string list" where
  "written_keys groups =
     concat (map (\<lambda>g. case snd g of [] \<Rightarrow> [] | [m] \<Rightarrow> [js_String (fst m)] | m # m' # ms \<Rightarrow> [fst g])
               groups)"

section \<open>Sample inputs\<close>

text \<open>
  Concrete inputs on which the theorems below are instantiated. \<open>sample_parse\<close> agrees with
  \<^verbatim>\<open>JSON.parse\<close> on the texts listed and rejects every other text.
\<close>

definition sample_parse :: "string \<Rightarrow> string + jsval" where
  \<open>sample_parse s =
     (if s = ''{"Input Sheet":{"Name":"Opp1"}}''
      then Inr (Obj [(''Input Sheet'', Obj [(''Name'', Str ''Opp1'')])])
      else if s = ''{"Table Header Row":{"Name":1}}''
      then Inr (Obj [(''Table Header Row'', Obj [(''Name'', Num 1)])])
      else if s = ''{"oli":{"object_label":"Product","object_api_name":"Product__c"}}''
      then Inr (Obj [(''oli'', Obj [(''object_label'', Str ''Product''),
                                    (''object_api_name'', Str ''Product__c'')])])
      else if s = ''{"oli":{"object_label":"Qty","object_api_name":"Quantity__c"}}''
      then Inr (Obj [(''oli'', Obj [(''object_label'', Str ''Qty''),
                                    (''object_api_name'', Str ''Quantity__c'')])])
      else if s = ''{"rev":{"object_label":"Rev","object_api_name":"Version_Number__c"}}''
      then Inr (Obj [(''rev'', Obj [(''object_label'', Str ''Rev''),
                                    (''object_api_name'', Str ''Version_Number__c'')])])
      else if s = ''{"jellyfish_line_item__c":{"object_label":"Opp","object_api_name":"opportunity_id__c"}}''
      then Inr (Obj [(''jellyfish_line_item__c'',
                      Obj [(''object_label'', Str ''Opp''),
                           (''object_api_name'', Str ''opportunity_id__c'')])])
      else if s = ''{"jellyfish_line_item__c":{"object_label":"Rev","object_api_name":"Version_Number__c"}}''
      then Inr (Obj [(''jellyfish_line_item__c'',
                      Obj [(''object_label'', Str ''Rev''),
                           (''object_api_name'', Str ''Version_Number__c'')])])
      else if s = ''{"jellyfish_line_item__c":{"object_label":"Qty","object_api_name":"Quantity__c"}}''
      then Inr (Obj [(''jellyfish_line_item__c'',
                      Obj [(''object_label'', Str ''Qty''),
                           (''object_api_name'', Str ''Quantity__c'')])])
      else if s = ''{"hasOwnProperty":1}'' then Inr (Obj [(''hasOwnProperty'', Num 1)])
      else if s = ''{"__proto__":null}'' then Inr (Obj [(''__proto__'', Null)])
      else if s = ''{"k":[1,2]}'' then Inr (Obj [(''k'', Arr [Num 1, Num 2])])
      else if s = ''{"k":3}'' then Inr (Obj [(''k'', Num 3)])
      else Inl ''Unexpected token'')\<close>

definition sample_cells :: "jsval list" where
  \<open>sample_cells =
     [Str ''Parameters'',
      Str ''{"oli":{"object_label":"Product","object_api_name":"Product__c"}}'',
      Str [],
      Str '' {"oli":{"object_label":"Qty","object_api_name":"Quantity__c"}} '',
      Str ''{"Table Header Row":{"Name":1}}'']\<close>

definition array_cells :: "jsval list" where
  \<open>array_cells = [Str ''{"k":[1,2]}'', Str ''{"k":3}'']\<close>


text \<open>
  Rows with the two special names: after either first row, the row below it cannot be
  aggregated.
\<close>

definition shadowing_cells :: "jsval list" where
  \<open>shadowing_cells = [Str ''{"hasOwnProperty":1}'', Str ''{"k":3}'', Str ''{oli}'']\<close>

definition prototype_cells :: "jsval list" where
  \<open>prototype_cells = [Str ''{"__proto__":null}'', Str ''{"k":3}'']\<close>

text \<open>
  The scenario of the specification: the parameters name the sheet \<^verbatim>\<open>Opp1\<close>, header row 1
  and the group \<^verbatim>\<open>oli\<close> with two mappings; the sheet has a header row and three data
  rows, the second of which has a blank first cell.
\<close>

definition scenario_cells :: "jsval list" where
  \<open>scenario_cells =
     [Str ''{"Input Sheet":{"Name":"Opp1"}}'',
      Str ''{"Table Header Row":{"Name":1}}'',
      Str ''{"oli":{"object_label":"Product","object_api_name":"Product__c"}}'',
      Str ''{"oli":{"object_label":"Qty","object_api_name":"Quantity__c"}}'']\<close>

definition scenario_sheet :: input_sheet where
  "scenario_sheet =
     \<lparr>header_values = (\<lambda>headerRowNumber. [Str ''Product'', Str ''Qty'']),
      data_values = (\<lambda>headerRowNumber.
        [[Str ''Widget'', Num 10], [Str [], Num 99], [Str ''Gadget'', Num 3]])\<rparr>"

definition scenario_ss :: spreadsheet where
  "scenario_ss =
     \<lparr>JF_SCRIPT_PARAMS = Some scenario_cells,
      getSheetByName = (\<lambda>name. if name = Str ''Opp1'' then Some scenario_sheet else None)\<rparr>"

text \<open>
  The scenario over a block of rows whose second row has no cell at all.
\<close>

definition absent_sheet :: input_sheet where
  "absent_sheet =
     \<lparr>header_values = (\<lambda>headerRowNumber. [Str ''Product'', Str ''Qty'']),
      data_values = (\<lambda>headerRowNumber.
        [[Str ''Widget'', Num 10], [], [Str ''Gadget'', Num 3]])\<rparr>"

definition absent_ss :: spreadsheet where
  "absent_ss =
     \<lparr>JF_SCRIPT_PARAMS = Some scenario_cells,
      getSheetByName = (\<lambda>name. if name = Str ''Opp1'' then Some absent_sheet else None)\<rparr>"

text \<open>
  A configuration with a label that no header cell has, and a header with a repeated cell.
\<close>

definition mapper_params :: jsobj where
  "mapper_params =
     [(''Input Sheet'', Obj [(''Name'', Str ''Opp1'')]),
      (''oli'', Arr [Obj [(''object_label'', Str ''Missing''), (''object_api_name'', Str ''X__c'')],
                    Obj [(''object_label'', Str ''Qty''), (''object_api_name'', Str ''Quantity__c'')]]),
      (''un'', Obj [(''object_label'', Str '' Product''), (''object_api_name'', Str ''Product__c'')])]"

definition mapper_header :: "jsval list" where
  "mapper_header = [Str ''Product '', Str ''Qty'', Str ''Qty'']"

text \<open>
  A configuration in which two groups name the same field and one group names a field
  twice, with the header and a data row of its sheet.
\<close>

definition clash_params :: jsobj where
  "clash_params =
     [(''a'', Obj [(''object_label'', Str ''A''), (''object_api_name'', Str ''f'')]),
      (''b'', Obj [(''object_label'', Str ''B''), (''object_api_name'', Str ''f'')]),
      (''g'', Arr [Obj [(''object_label'', Str ''A''), (''object_api_name'', Str ''h'')],
                  Obj [(''object_label'', Str ''B''), (''object_api_name'', Str ''h'')]])]"

text \<open>
  A run in which the sheet has a column \<^verbatim>\<open>Rev\<close> that the parameters map twice to
  \<^verbatim>\<open>Version_Number__c\<close>: alone in the group \<^verbatim>\<open>rev\<close>, and within the line-item group. The
  remote store reports 5 as the highest revision.
\<close>

definition revision_cells :: "jsval list" where
  \<open>revision_cells =
     [Str ''{"Input Sheet":{"Name":"Opp1"}}'',
      Str ''{"Table Header Row":{"Name":1}}'',
      Str ''{"rev":{"object_label":"Rev","object_api_name":"Version_Number__c"}}'',
      Str ''{"jellyfish_line_item__c":{"object_label":"Opp","object_api_name":"opportunity_id__c"}}'',
      Str ''{"jellyfish_line_item__c":{"object_label":"Rev","object_api_name":"Version_Number__c"}}'']\<close>

definition revision_sheet :: input_sheet where
  "revision_sheet =
     \<lparr>header_values = (\<lambda>headerRowNumber. [Str ''Opp'', Str ''Rev'']),
      data_values = (\<lambda>headerRowNumber. [[Str ''006A'', Num 7]])\<rparr>"

definition revision_ss :: spreadsheet where
  "revision_ss =
     \<lparr>JF_SCRIPT_PARAMS = Some revision_cells,
      getSheetByName = (\<lambda>name. if name = Str ''Opp1'' then Some revision_sheet else None)\<rparr>"

definition sample_sf :: remote where
  "sample_sf =
     \<lparr>deactivateAllActiveLineItems = (\<lambda>oppId. Inr (Arr [])),
      query_highest_revision = (\<lambda>oppId. Inr (Some [FieldNum 5])),
      post_records = (\<lambda>records. Inr (Arr (map (\<lambda>r. Obj [(''success'', Bool True)]) records)))\<rparr>"

text \<open>
  A run in which the line-item group maps the columns \<^verbatim>\<open>Opp\<close> and \<^verbatim>\<open>Qty\<close>, over a sheet of
  two data rows.
\<close>

definition line_item_cells :: "jsval list" where
  \<open>line_item_cells =
     [Str ''{"Input Sheet":{"Name":"Opp1"}}'',
      Str ''{"Table Header Row":{"Name":1}}'',
      Str ''{"jellyfish_line_item__c":{"object_label":"Opp","object_api_name":"opportunity_id__c"}}'',
      Str ''{"jellyfish_line_item__c":{"object_label":"Qty","object_api_name":"Quantity__c"}}'']\<close>

definition line_item_sheet :: input_sheet where
  "line_item_sheet =
     \<lparr>header_values = (\<lambda>headerRowNumber. [Str ''Opp'', Str ''Qty'']),
      data_values = (\<lambda>headerRowNumber. [[Str ''006A'', Num 10], [Str ''006A'', Num 3]])\<rparr>"

definition line_item_ss :: spreadsheet where
  "line_item_ss =
     \<lparr>JF_SCRIPT_PARAMS = Some line_item_cells,
      getSheetByName = (\<lambda>name. if name = Str ''Opp1'' then Some line_item_sheet else None)\<rparr>"

section \<open>Verification: loadParametersFromJson\<close>

lemma map_of_store:
  "map_of (store own (k, v)) key =
     (if k = key
      then Some (case map_of own key of
                   None \<Rightarrow> v
                 | Some held \<Rightarrow> push (if \<not> isArray held then Arr [held] else held) v)
      else map_of own key)"
  by (simp add: store_def update_conv' Let_def split: option.split)

lemma map_of_foldl_store:
  "map_of (foldl store own es) key =
     foldl merge_step (map_of own key) (occurrences key es)"
proof (induction es arbitrary: own)
  case Nil
  show ?case by (simp add: occurrences_def)
next
  case (Cons e es)
  obtain k v where e: "e = (k, v)" by (cases e)
  show ?case
    using Cons.IH [of "store own (k, v)"]
    by (simp add: e occurrences_def map_of_store merge_step_def)
qed

lemma merge_step_Arr:
  "foldl merge_step (Some (Arr xs)) ws = Some (Arr (xs @ ws))"
  by (induction ws arbitrary: xs) (simp_all add: merge_step_def)

lemma merge_step_None: "foldl merge_step None vs = merged vs"
proof (cases vs)
  case Nil
  then show ?thesis by simp
next
  case (Cons v ws)
  note vs = this
  show ?thesis
  proof (cases ws)
    case Nil
    with vs show ?thesis by (simp add: merge_step_def)
  next
    case (Cons w ws')
    with vs show ?thesis
      by (cases v) (simp_all add: merge_step_def merge_step_Arr)
  qed
qed

text \<open>
  While the prototype is untouched and no own property is named \<^verbatim>\<open>hasOwnProperty\<close>, the
  loop body does to the own properties, for an ordinary key, what \<open>store\<close> says, and
  leaves both conditions as they are.
\<close>

lemma aggregate_ordinary:
  assumes "prototype params = None"
    and "map_of (properties params) ''hasOwnProperty'' = None"
    and "ordinary_key key"
  shows "aggregate params (key, value) =
           Inr (params\<lparr>properties := store (properties params) (key, value)\<rparr>)"
  using assms
  by (simp add: aggregate_def callable_method_def set_new_def store_def ordinary_key_def
      Let_def split: option.splits)

lemma store_keeps_hasOwnProperty:
  assumes "map_of own ''hasOwnProperty'' = None" and "ordinary_key (fst kv)"
  shows "map_of (store own kv) ''hasOwnProperty'' = None"
  using assms by (cases kv) (simp add: map_of_store ordinary_key_def)

lemma foldl_store_keeps_hasOwnProperty:
  assumes "map_of own ''hasOwnProperty'' = None" and "\<forall>e \<in> set es. ordinary_key (fst e)"
  shows "map_of (foldl store own es) ''hasOwnProperty'' = None"
  using assms by (induction es arbitrary: own) (simp_all add: store_keeps_hasOwnProperty)

lemma aggregate_row_ordinary:
  assumes "prototype params = None"
    and "map_of (properties params) ''hasOwnProperty'' = None"
    and "\<forall>e \<in> set es. ordinary_key (fst e)"
  shows "aggregate_row params es =
           Inr (params\<lparr>properties := foldl store (properties params) es\<rparr>)"
  using assms
proof (induction es arbitrary: params)
  case Nil
  show ?case by simp
next
  case (Cons e es)
  obtain key v where e: "e = (key, v)" by (cases e)
  let ?next = "params\<lparr>properties := store (properties params) (key, v)\<rparr>"
  have step: "aggregate params e = Inr ?next"
    unfolding e using Cons.prems by (intro aggregate_ordinary) (simp_all add: e)
  have p: "prototype ?next = None"
    using Cons.prems(1) by simp
  have h: "map_of (properties ?next) ''hasOwnProperty'' = None"
    using store_keeps_hasOwnProperty [of "properties params" "(key, v)"] Cons.prems(2,3)
    by (simp add: e)
  have rest: "\<forall>e \<in> set es. ordinary_key (fst e)"
    using Cons.prems(3) by simp
  show ?case
    using step Cons.IH [OF p h rest] by (simp add: e)
qed

text \<open>One round of the loop over the rows, for a cell that loads and has ordinary keys.\<close>

lemma load_rows_step:
  assumes "loads JSON_parse cell"
    and "\<forall>e \<in> set (row_entries JSON_parse cell). ordinary_key (fst e)"
    and "prototype params = None"
    and "map_of (properties params) ''hasOwnProperty'' = None"
  shows "load_rows JSON_parse i (cell # rest) params =
           load_rows JSON_parse (i + 1) rest
             (params\<lparr>properties := foldl store (properties params) (row_entries JSON_parse cell)\<rparr>)"
proof (cases "js_trim (js_String cell) = []")
  case True
  then show ?thesis by (simp add: row_entries_def)
next
  case False
  with assms(1) obtain parsed where parsed: "JSON_parse (js_trim (js_String cell)) = Inr parsed"
    by (cases "JSON_parse (js_trim (js_String cell))") (auto simp: loads_def)
  have entries: "row_entries JSON_parse cell = for_in parsed"
    using False parsed by (simp add: row_entries_def)
  have "aggregate_row params (for_in parsed) =
          Inr (params\<lparr>properties := foldl store (properties params) (for_in parsed)\<rparr>)"
    using assms(2) by (intro aggregate_row_ordinary assms(3,4)) (simp add: entries)
  then show ?thesis
    using False parsed by (simp add: entries)
qed

lemma load_rows_ordinary:
  assumes "\<forall>cell \<in> set cells. loads JSON_parse cell"
    and "\<forall>e \<in> set (concat (map (row_entries JSON_parse) cells)). ordinary_key (fst e)"
    and "prototype params = None"
    and "map_of (properties params) ''hasOwnProperty'' = None"
  shows "load_rows JSON_parse i cells params =
           Inr (params\<lparr>properties :=
                  foldl store (properties params) (concat (map (row_entries JSON_parse) cells))\<rparr>)"
  using assms
proof (induction cells arbitrary: i params)
  case Nil
  show ?case by simp
next
  case (Cons cell rest)
  let ?next = "params\<lparr>properties := foldl store (properties params) (row_entries JSON_parse cell)\<rparr>"
  have c: "loads JSON_parse cell" and o: "\<forall>e \<in> set (row_entries JSON_parse cell). ordinary_key (fst e)"
    using Cons.prems(1,2) by auto
  have step: "load_rows JSON_parse i (cell # rest) params = load_rows JSON_parse (i + 1) rest ?next"
    by (rule load_rows_step [OF c o Cons.prems(3,4)])
  have p: "prototype ?next = None" using Cons.prems(3) by simp
  have h: "map_of (properties ?next) ''hasOwnProperty'' = None"
    using foldl_store_keeps_hasOwnProperty [OF Cons.prems(4) o] by simp
  have r1: "\<forall>cell \<in> set rest. loads JSON_parse cell" using Cons.prems(1) by simp
  have r2: "\<forall>e \<in> set (concat (map (row_entries JSON_parse) rest)). ordinary_key (fst e)"
    using Cons.prems(2) by auto
  show ?case
    unfolding step using Cons.IH [OF r1 r2 p h, of "i + 1"] by simp
qed


lemma distinct_store:
  "distinct (map fst own) \<Longrightarrow> distinct (map fst (store own kv))"
  by (cases kv) (simp add: store_def Let_def distinct_update split: option.splits)

lemma distinct_foldl_store:
  "distinct (map fst own) \<Longrightarrow> distinct (map fst (foldl store own es))"
  by (induction es arbitrary: own) (simp_all add: distinct_store)

text \<open>
  The two special names at work: after a row with the key \<^verbatim>\<open>hasOwnProperty\<close>, and after a
  row that sets the prototype to \<^verbatim>\<open>null\<close>, the next row, valid JSON as it is, raises the
  error of the \<^verbatim>\<open>catch\<close> block.
\<close>

lemma loadParametersFromJson_shadowed_hasOwnProperty:
  "loadParametersFromJson sample_parse (Some shadowing_cells) =
     Inl (Error (''Error parsing JSON at row 2: '' @ not_a_function))"
  by code_simp

lemma loadParametersFromJson_null_prototype:
  "loadParametersFromJson sample_parse (Some prototype_cells) =
     Inl (Error (''Error parsing JSON at row 2: '' @ not_a_function))"
  by code_simp

text \<open>
  Claim C1, amended. When every cell from the start row on is blank or parses, and no row
  has a top-level key named \<^verbatim>\<open>hasOwnProperty\<close> or \<^verbatim>\<open>__proto__\<close>, the load returns a
  configuration in which a key that no row has is absent, a key that occurs once holds its
  value unwrapped, and a key that occurs \<open>N > 1\<close> times holds the list of its \<open>N\<close>
  values in the order of the rows, provided its first value is not itself an array; if the
  first value is an array \<open>xs\<close>, the key holds \<open>xs\<close> followed by the later values.
\<close>

theorem loadParametersFromJson_aggregates:
  assumes "data \<noteq> []"
    and "\<forall>cell \<in> set (drop (start_row JSON_parse data) data). loads JSON_parse cell"
    and "\<forall>e \<in> set (top_level_entries JSON_parse data). ordinary_key (fst e)"
    and "vs = occurrences key (top_level_entries JSON_parse data)"
  shows "\<exists>params. loadParametersFromJson JSON_parse (Some data) = Inr params \<and>
           (vs = [] \<longrightarrow> map_of (properties params) key = None) \<and>
           (length vs = 1 \<longrightarrow> map_of (properties params) key = Some (vs ! 0)) \<and>
           (1 < length vs \<and> \<not> isArray (vs ! 0) \<longrightarrow>
              map_of (properties params) key = Some (Arr vs)) \<and>
           (1 < length vs \<longrightarrow>
              (\<forall>xs. vs ! 0 = Arr xs \<longrightarrow> map_of (properties params) key = Some (Arr (xs @ tl vs))))"
proof -
  let ?cells = "drop (start_row JSON_parse data) data"
  let ?empty = "\<lparr>properties = [], prototype = None\<rparr>"
  define params where
    "params = ?empty\<lparr>properties := foldl store [] (top_level_entries JSON_parse data)\<rparr>"
  have run: "load_rows JSON_parse (start_row JSON_parse data) ?cells ?empty = Inr params"
    unfolding params_def top_level_entries_def
    using load_rows_ordinary [OF assms(2), of ?empty "start_row JSON_parse data"] assms(3)
    by (simp add: top_level_entries_def)
  have load: "loadParametersFromJson JSON_parse (Some data) = Inr params"
    using assms(1) run by (simp add: loadParametersFromJson_def Let_def)
  have m: "map_of (properties params) key = merged vs"
    by (simp add: params_def map_of_foldl_store merge_step_None assms(4))
  have c0: "vs = [] \<longrightarrow> map_of (properties params) key = None"
    using m by simp
  have c1: "length vs = 1 \<longrightarrow> map_of (properties params) key = Some (vs ! 0)"
    using m by (cases vs) auto
  have c2: "1 < length vs \<and> \<not> isArray (vs ! 0) \<longrightarrow> map_of (properties params) key = Some (Arr vs)"
  proof
    assume a: "1 < length vs \<and> \<not> isArray (vs ! 0)"
    then obtain v w ws where vs: "vs = v # w # ws"
      by (cases vs; cases "tl vs") auto
    with a have "\<not> isArray v" by simp
    then show "map_of (properties params) key = Some (Arr vs)"
      using m vs by (cases v) simp_all
  qed
  have c3: "1 < length vs \<longrightarrow>
      (\<forall>xs. vs ! 0 = Arr xs \<longrightarrow> map_of (properties params) key = Some (Arr (xs @ tl vs)))"
  proof (intro impI allI)
    fix xs
    assume a: "1 < length vs" and b: "vs ! 0 = Arr xs"
    then obtain v w ws where vs: "vs = v # w # ws"
      by (cases vs; cases "tl vs") auto
    with b show "map_of (properties params) key = Some (Arr (xs @ tl vs))"
      using m by simp
  qed
  from load c0 c1 c2 c3 show ?thesis by blast
qed

text \<open>
  Witness for C1: a header cell, two rows for the key \<^verbatim>\<open>oli\<close> with a blank cell between
  them, and one row for \<^verbatim>\<open>Table Header Row\<close>.
\<close>

theorem loadParametersFromJson_aggregates_witness:
  "sample_cells \<noteq> [] \<and>
   (\<exists>params. loadParametersFromJson sample_parse (Some sample_cells) = Inr params \<and>
      map_of (properties params) ''oli'' =
        Some (Arr [Obj [(''object_label'', Str ''Product''), (''object_api_name'', Str ''Product__c'')],
                   Obj [(''object_label'', Str ''Qty''), (''object_api_name'', Str ''Quantity__c'')]]) \<and>
      map_of (properties params) ''Table Header Row'' = Some (Obj [(''Name'', Num 1)]))"
proof -
  have h1: "sample_cells \<noteq> []"
    by code_simp
  have h2: "\<forall>cell \<in> set (drop (start_row sample_parse sample_cells) sample_cells).
              loads sample_parse cell"
    by code_simp
  have h3: "\<forall>e \<in> set (top_level_entries sample_parse sample_cells). ordinary_key (fst e)"
    by code_simp
  have v1: "[Obj [(''object_label'', Str ''Product''), (''object_api_name'', Str ''Product__c'')],
             Obj [(''object_label'', Str ''Qty''), (''object_api_name'', Str ''Quantity__c'')]] =
            occurrences ''oli'' (top_level_entries sample_parse sample_cells)"
    by code_simp
  have v2: "[Obj [(''Name'', Num 1)]] =
            occurrences ''Table Header Row'' (top_level_entries sample_parse sample_cells)"
    by code_simp
  obtain params where p: "loadParametersFromJson sample_parse (Some sample_cells) = Inr params"
    and p3: "map_of (properties params) ''oli'' =
        Some (Arr [Obj [(''object_label'', Str ''Product''), (''object_api_name'', Str ''Product__c'')],
                   Obj [(''object_label'', Str ''Qty''), (''object_api_name'', Str ''Quantity__c'')]])"
    using loadParametersFromJson_aggregates [OF h1 h2 h3 v1] by auto
  obtain params' where p': "loadParametersFromJson sample_parse (Some sample_cells) = Inr params'"
    and p4: "map_of (properties params') ''Table Header Row'' = Some (Obj [(''Name'', Num 1)])"
    using loadParametersFromJson_aggregates [OF h1 h2 h3 v2] by auto
  from p p' have "params' = params" by simp
  with h1 p p3 p4 show ?thesis by blast
qed

text \<open>
  Counterexample to C1 as stated: the key \<^verbatim>\<open>k\<close> occurs twice, its first value being the
  array \<^verbatim>\<open>[1,2]\<close>; the configuration holds a list of three elements, not the list of the
  two values.
\<close>

theorem loadParametersFromJson_array_counterexample:
  "loadParametersFromJson sample_parse (Some array_cells) =
     Inr \<lparr>properties = [(''k'', Arr [Num 1, Num 2, Num 3])], prototype = None\<rparr> \<and>
   occurrences ''k'' (top_level_entries sample_parse array_cells) = [Arr [Num 1, Num 2], Num 3]"
  by code_simp



lemma enumerate_object_plain:
  "prototype obj = None \<Longrightarrow> enumerate_object obj = properties obj"
  by (simp add: enumerate_object_def)

text \<open>
  A configuration loaded from rows with ordinary keys is a plain object with each key once.
\<close>

lemma loadParametersFromJson_ordinary:
  assumes "loadParametersFromJson JSON_parse (Some data) = Inr params"
    and "\<forall>cell \<in> set (drop (start_row JSON_parse data) data). loads JSON_parse cell"
    and "\<forall>e \<in> set (top_level_entries JSON_parse data). ordinary_key (fst e)"
  shows "prototype params = None \<and> distinct (map fst (properties params)) \<and>
         enumerate_object params = properties params"
proof -
  let ?empty = "\<lparr>properties = [], prototype = None\<rparr>"
  have "load_rows JSON_parse (start_row JSON_parse data) (drop (start_row JSON_parse data) data) ?empty =
          Inr (?empty\<lparr>properties := foldl store [] (top_level_entries JSON_parse data)\<rparr>)"
    using load_rows_ordinary [OF assms(2), of ?empty "start_row JSON_parse data"] assms(3)
    by (simp add: top_level_entries_def)
  moreover have "data \<noteq> []"
    using assms(1) by (auto simp: loadParametersFromJson_def)
  ultimately have "params = ?empty\<lparr>properties := foldl store [] (top_level_entries JSON_parse data)\<rparr>"
    using assms(1) by (simp add: loadParametersFromJson_def Let_def)
  then show ?thesis
    using distinct_foldl_store [of "[]"] by (simp add: enumerate_object_def)
qed

section \<open>Verification: the rows of the table\<close>

lemma build_rows_prefix:
  assumes "r < length dataRows"
    and "js_index (dataRows ! r) 0 = Str [] \<or> js_index (dataRows ! r) 0 = Null"
    and "\<forall>i<r. js_index (dataRows ! i) 0 \<noteq> Str [] \<and> js_index (dataRows ! i) 0 \<noteq> Null"
  shows "build_rows overallMapping dataRows = map (build_record overallMapping) (take r dataRows)"
  using assms
proof (induction dataRows arbitrary: r)
  case Nil
  then show ?case by simp
next
  case (Cons row rest)
  show ?case
  proof (cases r)
    case 0
    with Cons.prems show ?thesis by auto
  next
    case (Suc m)
    have head: "js_index row 0 \<noteq> Str [] \<and> js_index row 0 \<noteq> Null"
      using Cons.prems(3) Suc by auto
    have "build_rows overallMapping rest = map (build_record overallMapping) (take m rest)"
      using Cons.prems Suc by (intro Cons.IH) auto
    with head Suc show ?thesis by simp
  qed
qed

text \<open>
  Claim C2, amended. Once the parameters are loaded and logged, the input sheet is found
  and the columns are mapped, a block of data rows whose first cell is the empty string or \<^verbatim>\<open>null\<close>
  at row index \<open>r\<close>, and neither of the two at any earlier row, makes the builder return
  exactly \<open>r\<close> records, those of the rows before \<open>r\<close>; the result does not depend on
  row \<open>r\<close> or on any later row. A row whose first cell is absent (\<^verbatim>\<open>undefined\<close>) is among
  the rows that do not end the table.
\<close>

theorem table_stops_at_first_blank_row:
  assumes "loadParametersFromJson JSON_parse (JF_SCRIPT_PARAMS ss) = Inr loaded"
    and "callable_method ''toString'' loaded"
    and "params = enumerate_object loaded"
    and "\<not> nullish (obj_get params ''Input Sheet'')"
    and "\<not> nullish (obj_get params ''Table Header Row'')"
    and "getSheetByName ss (js_get (obj_get params ''Input Sheet'') ''Name'') = Some sheet"
    and "headerRowNumber = js_get (obj_get params ''Table Header Row'') ''Name''"
    and "map_params (header_values sheet headerRowNumber) params ([], []) = Inr (overallMapping, log)"
    and "dataRows = data_values sheet headerRowNumber"
    and "r < length dataRows"
    and "js_index (dataRows ! r) 0 = Str [] \<or> js_index (dataRows ! r) 0 = Null"
    and "\<forall>i<r. js_index (dataRows ! i) 0 \<noteq> Str [] \<and> js_index (dataRows ! i) 0 \<noteq> Null"
  shows "\<exists>records. buildDataTableFromParamsDynamic JSON_parse ss = Inr records \<and>
           length records = r \<and>
           records = map (build_record overallMapping) (take r dataRows)"
proof -
  have rows: "build_rows overallMapping dataRows = map (build_record overallMapping) (take r dataRows)"
    by (rule build_rows_prefix [OF assms(10) assms(11) assms(12)])
  have "buildDataTableFromParamsDynamic JSON_parse ss = Inr (build_rows overallMapping dataRows)"
    using assms(1-9) by (simp add: buildDataTableFromParamsDynamic_def Let_def)
  moreover have "length (map (build_record overallMapping) (take r dataRows)) = r"
    using assms(10) by simp
  ultimately show ?thesis using rows by simp
qed

text \<open>Witness for C2: the scenario, whose second data row is blank, gives one record.\<close>

theorem table_stops_at_first_blank_row_witness:
  "buildDataTableFromParamsDynamic sample_parse scenario_ss =
     Inr [[(''oli'', Obj [(''Product__c'', Str ''Widget''), (''Quantity__c'', Num 10)])]] \<and>
   js_index (data_values scenario_sheet (Num 1) ! 1) 0 = Str [] \<and>
   length (data_values scenario_sheet (Num 1)) = 3"
proof -
  let ?params = "[(''Input Sheet'', Obj [(''Name'', Str ''Opp1'')]),
        (''Table Header Row'', Obj [(''Name'', Num 1)]),
        (''oli'', Arr [Obj [(''object_label'', Str ''Product''), (''object_api_name'', Str ''Product__c'')],
                   Obj [(''object_label'', Str ''Qty''), (''object_api_name'', Str ''Quantity__c'')]])]"
  let ?loaded = "\<lparr>properties = ?params, prototype = None\<rparr>"
  let ?om = "[(''oli'', [(Str ''Product__c'', 0::nat), (Str ''Quantity__c'', 1)])]"
  let ?rows = "data_values scenario_sheet (Num 1)"
  have h1: "loadParametersFromJson sample_parse (JF_SCRIPT_PARAMS scenario_ss) = Inr ?loaded"
    by code_simp
  have h1': "callable_method ''toString'' ?loaded"
    by code_simp
  have h2: "?params = enumerate_object ?loaded"
    by code_simp
  have h3: "\<not> nullish (obj_get ?params ''Input Sheet'')"
    by code_simp
  have h4: "\<not> nullish (obj_get ?params ''Table Header Row'')"
    by code_simp
  have name: "js_get (obj_get ?params ''Input Sheet'') ''Name'' = Str ''Opp1''"
    by code_simp
  have h5: "getSheetByName scenario_ss (js_get (obj_get ?params ''Input Sheet'') ''Name'') =
              Some scenario_sheet"
    unfolding name by (simp add: scenario_ss_def)
  have h6: "Num 1 = js_get (obj_get ?params ''Table Header Row'') ''Name''"
    by code_simp
  have h7: "map_params (header_values scenario_sheet (Num 1)) ?params ([], []) = Inr (?om, [])"
    by code_simp
  have h9: "1 < length ?rows"
    by code_simp
  have h10: "js_index (?rows ! 1) 0 = Str [] \<or> js_index (?rows ! 1) 0 = Null"
    by code_simp
  have h11: "\<forall>i<1. js_index (?rows ! i) 0 \<noteq> Str [] \<and> js_index (?rows ! i) 0 \<noteq> Null"
    by code_simp
  obtain records where r: "buildDataTableFromParamsDynamic sample_parse scenario_ss = Inr records"
    and m: "records = map (build_record ?om) (take 1 ?rows)"
    using table_stops_at_first_blank_row [OF h1 h1' h2 h3 h4 h5 h6 h7 refl h9 h10 h11] by blast
  have "map (build_record ?om) (take 1 ?rows) =
          [[(''oli'', Obj [(''Product__c'', Str ''Widget''), (''Quantity__c'', Num 10)])]]"
    by code_simp
  moreover have "js_index (?rows ! 1) 0 = Str []" by code_simp
  moreover have "length ?rows = 3" by code_simp
  ultimately show ?thesis using r m by simp
qed

text \<open>
  Counterexample to C2 as stated: the second data row has no cell at index 0, the first
  row has one; the builder does not stop there and returns three records, not one.
\<close>

theorem table_absent_cell_counterexample:
  "js_index (data_values absent_sheet (Num 1) ! 1) 0 = Undefined \<and>
   js_index (data_values absent_sheet (Num 1) ! 0) 0 = Str ''Widget'' \<and>
   buildDataTableFromParamsDynamic sample_parse absent_ss =
     Inr [[(''oli'', Obj [(''Product__c'', Str ''Widget''), (''Quantity__c'', Num 10)])],
          [(''oli'', Obj [(''Product__c'', Undefined), (''Quantity__c'', Undefined)])],
          [(''oli'', Obj [(''Product__c'', Str ''Gadget''), (''Quantity__c'', Num 3)])]]"
  by code_simp

section \<open>Verification: entries the mapper skips\<close>

text \<open>
  Claim C9. An entry whose \<^verbatim>\<open>object_label\<close> or \<^verbatim>\<open>object_api_name\<close> is missing, \<^verbatim>\<open>null\<close>,
  \<^verbatim>\<open>false\<close>, \<^verbatim>\<open>0\<close> or the empty string is skipped before the header is scanned: the
  mapping list and the log of warnings stay as they were.
\<close>

theorem map_group_skips_falsy_entry:
  assumes "\<not> nullish item"
    and "js_get item ''object_label'' \<in> {Undefined, Null, Bool False, Num 0, Str []} \<or>
         js_get item ''object_api_name'' \<in> {Undefined, Null, Bool False, Num 0, Str []}"
  shows "map_group headerRow key [item] (mappings, log) = Inr (mappings, log) \<and>
         map_group headerRow key (item # rest) (mappings, log) =
           map_group headerRow key rest (mappings, log)"
proof -
  have "\<not> truthy (js_get item ''object_label'') \<or> \<not> truthy (js_get item ''object_api_name'')"
    using assms(2) by auto
  with assms(1) show ?thesis by auto
qed

text \<open>Witness for C9: an entry whose label is the empty string.\<close>

theorem map_group_skips_falsy_entry_witness:
  "js_get (Obj [(''object_label'', Str []), (''object_api_name'', Str ''Product__c'')]) ''object_label''
     \<in> {Undefined, Null, Bool False, Num 0, Str []} \<and>
   map_group [Str ''Product''] ''oli''
     [Obj [(''object_label'', Str []), (''object_api_name'', Str ''Product__c'')]] ([], []) =
     Inr ([], [])"
proof -
  let ?item = "Obj [(''object_label'', Str []), (''object_api_name'', Str ''Product__c'')]"
  have h1: "\<not> nullish ?item" by simp
  have h2: "js_get ?item ''object_label'' \<in> {Undefined, Null, Bool False, Num 0, Str []} \<or>
            js_get ?item ''object_api_name'' \<in> {Undefined, Null, Bool False, Num 0, Str []}"
    by (simp add: obj_get_def)
  have h3: "js_get ?item ''object_label'' \<in> {Undefined, Null, Bool False, Num 0, Str []}"
    by (simp add: obj_get_def)
  from map_group_skips_falsy_entry [OF h1 h2, of "[Str ''Product'']" "''oli''" "[]" "[]" "[]"] h3
  show ?thesis by blast
qed

section \<open>Verification: the highest revision\<close>



section \<open>Verification: formatOLIs\<close>

lemma update_fresh:
  "k \<notin> fst ` set al \<Longrightarrow> AList.update k v al = al @ [(k, v)]"
  by (induction al) auto

lemma foldl_assign_distinct:
  "distinct (map fst (acc @ r)) \<Longrightarrow> foldl assign acc r = acc @ r"
proof (induction r arbitrary: acc)
  case Nil
  then show ?case by simp
next
  case (Cons kv r)
  have fresh: "fst kv \<notin> fst ` set acc"
    using Cons.prems by auto
  have step: "assign acc kv = acc @ [kv]"
    using update_fresh [OF fresh] by (simp add: assign_def)
  have d: "distinct (map fst ((acc @ [kv]) @ r))"
    using Cons.prems by simp
  from Cons.IH [OF d] step show ?case by simp
qed

lemma distinct_foldl_assign:
  "distinct (map fst acc) \<Longrightarrow> distinct (map fst (foldl assign acc r))"
  by (induction r arbitrary: acc) (simp_all add: assign_def distinct_update)







section \<open>Verification: the column mapper\<close>

lemma find_map_index:
  "find P (map f xs) = map_option f (find (P \<circ> f) xs)"
  by (induction xs) auto

lemma scan_header_find:
  "scan_header hs label k =
     map_option (\<lambda>j. j + k) (find (\<lambda>j. js_trim (js_String (hs ! j)) = label) [0..<length hs])"
proof (induction hs arbitrary: k)
  case Nil
  show ?case by simp
next
  case (Cons h hs)
  have upt: "[0..<length (h # hs)] = 0 # map Suc [0..<length hs]"
    by (simp add: upt_conv_Cons map_Suc_upt del: upt_Suc)
  show ?case
  proof (cases "js_trim (js_String h) = label")
    case True
    then show ?thesis unfolding upt by simp
  next
    case False
    have "scan_header (h # hs) label k = scan_header hs label (k + 1)"
      using False by simp
    also have "\<dots> = map_option (\<lambda>j. j + (k + 1))
        (find (\<lambda>j. js_trim (js_String (hs ! j)) = label) [0..<length hs])"
      by (rule Cons.IH)
    also have "\<dots> = map_option (\<lambda>j. j + k)
        (find (\<lambda>j. js_trim (js_String ((h # hs) ! j)) = label) [0..<length (h # hs)])"
      unfolding upt using False
      by (simp add: find_map_index comp_def option.map_comp)
    finally show ?thesis .
  qed
qed

lemma scan_header_first_match: "scan_header headerRow label 0 = first_match headerRow label"
  by (simp add: scan_header_find first_match_def option.map_ident)

lemma map_group_resolves:
  assumes "\<forall>item \<in> set items. \<not> nullish item"
  shows "map_group headerRow key items (mappings, log) =
           Inr (mappings @ concat (map (resolved_pairs headerRow) items),
                log @ concat (map (warnings_of headerRow key) items))"
  using assms
proof (induction items arbitrary: mappings log)
  case Nil
  show ?case by simp
next
  case (Cons item rest)
  have item: "\<not> nullish item" and rest: "\<forall>item \<in> set rest. \<not> nullish item"
    using Cons.prems by auto
  note ih = Cons.IH [OF rest]
  show ?case
  proof (cases "has_both item")
    case False
    then have "resolved_pairs headerRow item = []" "warnings_of headerRow key item = []"
      by (simp_all add: resolved_pairs_def warnings_of_def)
    moreover have "map_group headerRow key (item # rest) (mappings, log) =
        map_group headerRow key rest (mappings, log)"
      using False item by (auto simp: has_both_def)
    ultimately show ?thesis using ih by simp
  next
    case True
    let ?label = "js_trim (js_String (js_get item ''object_label''))"
    show ?thesis
    proof (cases "first_match headerRow ?label")
      case None
      then have "resolved_pairs headerRow item = []"
        and "warnings_of headerRow key item =
          [''Warning: Header label '' @ quoted ?label @ '' for group '' @ quoted key @ '' not found.'']"
        using True by (simp_all add: resolved_pairs_def warnings_of_def)
      moreover have "map_group headerRow key (item # rest) (mappings, log) =
          map_group headerRow key rest (mappings,
            log @ [''Warning: Header label '' @ quoted ?label @ '' for group '' @ quoted key @ '' not found.''])"
        using True item None by (simp add: has_both_def Let_def scan_header_first_match)
      ultimately show ?thesis using ih by simp
    next
      case (Some j)
      then have "resolved_pairs headerRow item = [(js_get item ''object_api_name'', j)]"
        and "warnings_of headerRow key item = []"
        using True by (simp_all add: resolved_pairs_def warnings_of_def)
      moreover have "map_group headerRow key (item # rest) (mappings, log) =
          map_group headerRow key rest (mappings @ [(js_get item ''object_api_name'', j)], log)"
        using True item Some by (simp add: has_both_def Let_def scan_header_first_match)
      ultimately show ?thesis using ih by simp
    qed
  qed
qed

lemma first_match_iff:
  "first_match headerRow label = Some j \<longleftrightarrow>
     j < length headerRow \<and> js_trim (js_String (headerRow ! j)) = label \<and>
     (\<forall>i<j. js_trim (js_String (headerRow ! i)) \<noteq> label)"
  unfolding first_match_def find_Some_iff by auto

lemma first_match_None_iff:
  "first_match headerRow label = None \<longleftrightarrow>
     (\<forall>j<length headerRow. js_trim (js_String (headerRow ! j)) \<noteq> label)"
  unfolding first_match_def find_None_iff by auto

lemma map_params_resolves:
  assumes "distinct (map fst params)"
    and "fst ` set overallMapping \<inter> fst ` set params = {}"
    and "\<forall>kv \<in> set params. is_group kv \<longrightarrow> (\<forall>item \<in> set (group_array (snd kv)). \<not> nullish item)"
  shows "map_params headerRow params (overallMapping, log) =
           Inr (overallMapping @
                  map (\<lambda>kv. (fst kv, concat (map (resolved_pairs headerRow) (group_array (snd kv)))))
                    (filter is_group params),
                log @
                  concat (map (\<lambda>kv. concat (map (warnings_of headerRow (fst kv)) (group_array (snd kv))))
                    (filter is_group params)))"
  using assms
proof (induction params arbitrary: overallMapping log)
  case Nil
  show ?case by simp
next
  case (Cons kv rest)
  obtain key groupData where kv: "kv = (key, groupData)" by (cases kv)
  have d: "distinct (map fst rest)" using Cons.prems(1) by simp
  have ok: "\<forall>kv \<in> set rest. is_group kv \<longrightarrow> (\<forall>item \<in> set (group_array (snd kv)). \<not> nullish item)"
    using Cons.prems(3) by simp
  show ?case
  proof (cases "is_group kv")
    case False
    have disj: "fst ` set overallMapping \<inter> fst ` set rest = {}"
      using Cons.prems(2) by auto
    have "map_params headerRow (kv # rest) (overallMapping, log) =
            map_params headerRow rest (overallMapping, log)"
      using False by (auto simp: kv is_group_def)
    with Cons.IH [OF d disj ok] False show ?thesis by simp
  next
    case True
    let ?ms = "concat (map (resolved_pairs headerRow) (group_array groupData))"
    let ?ws = "concat (map (warnings_of headerRow key) (group_array groupData))"
    have items: "\<forall>item \<in> set (group_array groupData). \<not> nullish item"
      using Cons.prems(3) True by (simp add: kv)
    have grp: "map_group headerRow key (group_array groupData) ([], log) = Inr (?ms, log @ ?ws)"
      using map_group_resolves [OF items, of headerRow key "[]" log] by simp
    have fresh: "key \<notin> fst ` set overallMapping"
      using Cons.prems(2) by (auto simp: kv)
    have upd: "AList.update key ?ms overallMapping = overallMapping @ [(key, ?ms)]"
      using fresh by (induction overallMapping) auto
    have disj: "fst ` set (overallMapping @ [(key, ?ms)]) \<inter> fst ` set rest = {}"
      using Cons.prems(1,2) by (auto simp: kv)
    have "map_params headerRow (kv # rest) (overallMapping, log) =
            map_params headerRow rest (overallMapping @ [(key, ?ms)], log @ ?ws)"
      using True grp upd by (simp add: kv is_group_def Let_def)
    with Cons.IH [OF d disj ok] True show ?thesis by (simp add: kv)
  qed
qed

text \<open>
  Claim C4. When no group element is \<^verbatim>\<open>null\<close>, the mapper returns, for every key other than
  the two reserved ones and in the order of the keys, the pairs its elements resolve to:
  an element with both fields gives the pair of its \<^verbatim>\<open>object_api_name\<close> and the index of
  the first header cell, from the left, whose trimmed text equals its trimmed label, and
  nothing more for that label; an element whose label no cell matches gives no pair and one
  warning, and the elements after it, in its group and in the later groups, are resolved
  all the same.
\<close>

theorem column_mapping_resolution:
  assumes "distinct (map fst params)"
    and "\<forall>kv \<in> set params. is_group kv \<longrightarrow> (\<forall>item \<in> set (group_array (snd kv)). \<not> nullish item)"
  shows "map_params headerRow params ([], []) =
           Inr (map (\<lambda>kv. (fst kv, concat (map (resolved_pairs headerRow) (group_array (snd kv)))))
                  (filter is_group params),
                concat (map (\<lambda>kv. concat (map (warnings_of headerRow (fst kv)) (group_array (snd kv))))
                  (filter is_group params))) \<and>
         (\<forall>label j. first_match headerRow label = Some j \<longleftrightarrow>
            j < length headerRow \<and> js_trim (js_String (headerRow ! j)) = label \<and>
            (\<forall>i<j. js_trim (js_String (headerRow ! i)) \<noteq> label))"
proof -
  have "map_params headerRow params ([], []) =
           Inr ([] @ map (\<lambda>kv. (fst kv, concat (map (resolved_pairs headerRow) (group_array (snd kv)))))
                  (filter is_group params),
                [] @ concat (map (\<lambda>kv. concat (map (warnings_of headerRow (fst kv)) (group_array (snd kv))))
                  (filter is_group params)))"
    by (rule map_params_resolves [OF assms(1) _ assms(2)]) simp
  then show ?thesis using first_match_iff by simp
qed

text \<open>
  Witness for C4: the label \<^verbatim>\<open>Missing\<close> is skipped with a warning, \<^verbatim>\<open>Qty\<close> resolves to
  the first of two equal cells, and the group \<^verbatim>\<open>un\<close> after it resolves too.
\<close>

theorem column_mapping_resolution_witness:
  "map_params mapper_header mapper_params ([], []) =
     Inr ([(''oli'', [(Str ''Quantity__c'', 1)]), (''un'', [(Str ''Product__c'', 0)])],
          [''Warning: Header label '' @ quoted ''Missing'' @ '' for group '' @ quoted ''oli'' @
           '' not found.''])"
proof -
  have h1: "distinct (map fst mapper_params)"
    by code_simp
  have h2: "\<forall>kv \<in> set mapper_params. is_group kv \<longrightarrow>
              (\<forall>item \<in> set (group_array (snd kv)). \<not> nullish item)"
    by code_simp
  have e1: "map (\<lambda>kv. (fst kv, concat (map (resolved_pairs mapper_header) (group_array (snd kv)))))
              (filter is_group mapper_params) =
            [(''oli'', [(Str ''Quantity__c'', 1)]), (''un'', [(Str ''Product__c'', 0)])]"
    by code_simp
  have e2: "concat (map (\<lambda>kv. concat (map (warnings_of mapper_header (fst kv)) (group_array (snd kv))))
              (filter is_group mapper_params)) =
            [''Warning: Header label '' @ quoted ''Missing'' @ '' for group '' @ quoted ''oli'' @
             '' not found.'']"
    by code_simp
  from column_mapping_resolution [OF h1 h2, of mapper_header] show ?thesis
    unfolding e1 e2 by blast
qed

section \<open>Verification: the records of the table\<close>

lemma foldl_assign_map:
  "foldl (\<lambda>nested m. AList.update (f m) (h m) nested) acc ms =
   foldl assign acc (map (\<lambda>m. (f m, h m)) ms)"
  by (induction ms arbitrary: acc) (simp_all add: assign_def)

lemma build_group_writes: "build_group row rec g = foldl assign rec (group_writes row g)"
proof (cases g)
  case (Pair groupKey mappings)
  show ?thesis
  proof (cases mappings)
    case Nil
    with Pair show ?thesis by (simp add: build_group_def group_writes_def)
  next
    case (Cons m ms)
    note outer = this
    show ?thesis
    proof (cases ms)
      case Nil
      with Pair outer show ?thesis
        by (simp add: build_group_def group_writes_def assign_def)
    next
      case (Cons m' ms')
      with Pair outer show ?thesis
        by (simp add: build_group_def group_writes_def assign_def foldl_assign_map)
    qed
  qed
qed

lemma build_record_writes:
  "foldl (build_group row) acc groups = foldl assign acc (concat (map (group_writes row) groups))"
  by (induction groups arbitrary: acc) (simp_all add: build_group_writes)

lemma keys_group_writes:
  "map fst (concat (map (group_writes row) groups)) = written_keys groups"
proof (induction groups)
  case Nil
  show ?case by (simp add: written_keys_def)
next
  case (Cons g groups)
  have "map fst (group_writes row g) =
          (case snd g of [] \<Rightarrow> [] | [m] \<Rightarrow> [js_String (fst m)] | m # m' # ms \<Rightarrow> [fst g])"
    by (simp add: group_writes_def split: list.splits)
  with Cons show ?case by (simp add: written_keys_def)
qed

lemma map_of_assign:
  "map_of (assign acc kv) k = (if fst kv = k then Some (snd kv) else map_of acc k)"
  by (simp add: assign_def update_conv')

lemma map_of_foldl_assign_other:
  "k \<notin> fst ` set kvs \<Longrightarrow> map_of (foldl assign acc kvs) k = map_of acc k"
  by (induction kvs arbitrary: acc) (auto simp: map_of_assign)

lemma map_of_foldl_assign_last:
  assumes "k \<notin> fst ` set later"
  shows "map_of (foldl assign acc (earlier @ (k, v) # later)) k = Some v"
  using assms by (simp add: map_of_foldl_assign_other map_of_assign)

lemma build_record_split:
  "build_record (before @ g # after) row =
     foldl assign [] (concat (map (group_writes row) before) @ group_writes row g @
                      concat (map (group_writes row) after))"
  by (simp add: build_record_def build_record_writes build_group_writes)

text \<open>
  Claim C3, amended. For a data row and a group at any place among the groups: if the group
  resolved to one mapping and no later group writes a top-level property of the same name,
  the record has the property named by its \<^verbatim>\<open>object_api_name\<close> with the value of the matched
  cell; if it resolved to \<open>k \<ge> 2\<close> mappings with pairwise different names and no later
  group writes a property named like the group, the record holds under the group key the
  object of exactly these \<open>k\<close> fields with the values of their cells; if it resolved to
  no mapping and no other group writes a property named like the group, the record has no
  property of that name.
\<close>

theorem record_nesting_rule:
  assumes "overallMapping = before @ (groupKey, mappings) # after"
  shows "(\<forall>api col. mappings = [(api, col)] \<and> js_String api \<notin> set (written_keys after) \<longrightarrow>
            map_of (build_record overallMapping row) (js_String api) = Some (js_index row col)) \<and>
         (2 \<le> length mappings \<and> distinct (map (\<lambda>m. js_String (fst m)) mappings) \<and>
          groupKey \<notin> set (written_keys after) \<longrightarrow>
            map_of (build_record overallMapping row) groupKey =
              Some (Obj (map (\<lambda>m. (js_String (fst m), js_index row (snd m))) mappings))) \<and>
         (mappings = [] \<and> groupKey \<notin> set (written_keys (before @ after)) \<longrightarrow>
            map_of (build_record overallMapping row) groupKey = None)"
proof -
  let ?B = "concat (map (group_writes row) before)"
  let ?A = "concat (map (group_writes row) after)"
  let ?g = "(groupKey, mappings)"
  have rec: "build_record overallMapping row = foldl assign [] (?B @ group_writes row ?g @ ?A)"
    unfolding assms by (rule build_record_split)
  have keysA: "fst ` set ?A = set (written_keys after)"
    using keys_group_writes [of row after] by (metis set_map)
  have keysB: "fst ` set ?B = set (written_keys before)"
    using keys_group_writes [of row before] by (metis set_map)
  have single: "\<forall>api col. mappings = [(api, col)] \<and> js_String api \<notin> set (written_keys after) \<longrightarrow>
            map_of (build_record overallMapping row) (js_String api) = Some (js_index row col)"
  proof (intro allI impI)
    fix api col
    assume a: "mappings = [(api, col)] \<and> js_String api \<notin> set (written_keys after)"
    then have w: "group_writes row ?g = [(js_String api, js_index row col)]"
      by (simp add: group_writes_def)
    have "js_String api \<notin> fst ` set ?A" using a keysA by simp
    then show "map_of (build_record overallMapping row) (js_String api) = Some (js_index row col)"
      unfolding rec w using map_of_foldl_assign_last [of "js_String api" ?A "[]" ?B] by simp
  qed
  have multi: "2 \<le> length mappings \<and> distinct (map (\<lambda>m. js_String (fst m)) mappings) \<and>
          groupKey \<notin> set (written_keys after) \<longrightarrow>
            map_of (build_record overallMapping row) groupKey =
              Some (Obj (map (\<lambda>m. (js_String (fst m), js_index row (snd m))) mappings))"
  proof
    let ?fields = "map (\<lambda>m. (js_String (fst m), js_index row (snd m))) mappings"
    assume a: "2 \<le> length mappings \<and> distinct (map (\<lambda>m. js_String (fst m)) mappings) \<and>
          groupKey \<notin> set (written_keys after)"
    then obtain m m' ms where ms: "mappings = m # m' # ms"
      by (cases mappings; cases "tl mappings") auto
    have "distinct (map fst ([] @ ?fields))"
      using a by (simp add: comp_def)
    then have nested: "foldl assign [] ?fields = ?fields"
      using foldl_assign_distinct [of "[]" ?fields] by simp
    have w: "group_writes row ?g = [(groupKey, Obj ?fields)]"
      using nested by (simp add: group_writes_def ms)
    have "groupKey \<notin> fst ` set ?A" using a keysA by simp
    then show "map_of (build_record overallMapping row) groupKey = Some (Obj ?fields)"
      unfolding rec w using map_of_foldl_assign_last [of groupKey ?A "[]" ?B] by simp
  qed
  have none: "mappings = [] \<and> groupKey \<notin> set (written_keys (before @ after)) \<longrightarrow>
            map_of (build_record overallMapping row) groupKey = None"
  proof
    assume a: "mappings = [] \<and> groupKey \<notin> set (written_keys (before @ after))"
    then have w: "group_writes row ?g = []"
      by (simp add: group_writes_def)
    have "set (written_keys (before @ after)) = set (written_keys before) \<union> set (written_keys after)"
      by (simp add: written_keys_def)
    then have "groupKey \<notin> fst ` set (?B @ ?A)"
      using a keysA keysB by (simp add: image_Un)
    then show "map_of (build_record overallMapping row) groupKey = None"
      unfolding rec w using map_of_foldl_assign_other [of groupKey "?B @ ?A" "[]"] by simp
  qed
  from single multi none show ?thesis by blast
qed

text \<open>
  Counterexample to C3 as stated. The groups \<^verbatim>\<open>a\<close> and \<^verbatim>\<open>b\<close> each resolve to one mapping,
  both named \<^verbatim>\<open>f\<close>: the record holds under \<^verbatim>\<open>f\<close> the cell of \<^verbatim>\<open>b\<close>, not the cell
  \<^verbatim>\<open>x\<close> that \<^verbatim>\<open>a\<close> matched. The group \<^verbatim>\<open>g\<close> resolves to two mappings, both named
  \<^verbatim>\<open>h\<close>: its nested object has one entry, not two.
\<close>

theorem record_nesting_rule_counterexample:
  "map_params [Str ''A'', Str ''B''] clash_params ([], []) =
     Inr ([(''a'', [(Str ''f'', 0)]), (''b'', [(Str ''f'', 1)]),
           (''g'', [(Str ''h'', 0), (Str ''h'', 1)])], []) \<and>
   build_record [(''a'', [(Str ''f'', 0)]), (''b'', [(Str ''f'', 1)]),
                 (''g'', [(Str ''h'', 0), (Str ''h'', 1)])] [Str ''x'', Str ''y''] =
     [(''f'', Str ''y''), (''g'', Obj [(''h'', Str ''y'')])]"
  by code_simp

text \<open>
  Witness for C3: a group with one mapping, a group with two and a group with none.
\<close>

theorem record_nesting_rule_witness:
  "map_of (build_record [(''un'', [(Str ''Customer__c'', 2)]),
                         (''oli'', [(Str ''Product__c'', 0), (Str ''Quantity__c'', 1)]),
                         (''none'', [])]
             [Str ''Widget'', Num 10, Str ''ACME'']) ''Customer__c'' = Some (Str ''ACME'') \<and>
   map_of (build_record [(''un'', [(Str ''Customer__c'', 2)]),
                         (''oli'', [(Str ''Product__c'', 0), (Str ''Quantity__c'', 1)]),
                         (''none'', [])]
             [Str ''Widget'', Num 10, Str ''ACME'']) ''oli'' =
     Some (Obj [(''Product__c'', Str ''Widget''), (''Quantity__c'', Num 10)]) \<and>
   map_of (build_record [(''un'', [(Str ''Customer__c'', 2)]),
                         (''oli'', [(Str ''Product__c'', 0), (Str ''Quantity__c'', 1)]),
                         (''none'', [])]
             [Str ''Widget'', Num 10, Str ''ACME'']) ''none'' = None"
proof -
  let ?un = "(''un'', [(Str ''Customer__c'', 2::nat)])"
  let ?oli = "(''oli'', [(Str ''Product__c'', 0::nat), (Str ''Quantity__c'', 1)])"
  let ?none = "(''none'', []::mapping list)"
  let ?om = "[?un, ?oli, ?none]"
  let ?row = "[Str ''Widget'', Num 10, Str ''ACME'']"
  have s1: "?om = [] @ ?un # [?oli, ?none]" by simp
  have s2: "?om = [?un] @ ?oli # [?none]" by simp
  have s3: "?om = [?un, ?oli] @ ?none # []" by simp
  have k1: "js_String (Str ''Customer__c'') \<notin> set (written_keys [?oli, ?none])" by code_simp
  have k2: "2 \<le> length (snd ?oli) \<and> distinct (map (\<lambda>m. js_String (fst m)) (snd ?oli)) \<and>
            ''oli'' \<notin> set (written_keys [?none])" by code_simp
  have k3: "''none'' \<notin> set (written_keys ([?un, ?oli] @ []))" by code_simp
  have c1: "map_of (build_record ?om ?row) (js_String (Str ''Customer__c'')) = Some (js_index ?row 2)"
    using record_nesting_rule [OF s1, of ?row] k1 by blast
  have c2: "map_of (build_record ?om ?row) ''oli'' =
      Some (Obj (map (\<lambda>m. (js_String (fst m), js_index ?row (snd m))) (snd ?oli)))"
    using record_nesting_rule [OF s2, of ?row] k2 by simp
  have c3: "map_of (build_record ?om ?row) ''none'' = None"
    using record_nesting_rule [OF s3, of ?row] k3 by blast
  have e1: "js_String (Str ''Customer__c'') = ''Customer__c''" "js_index ?row 2 = Str ''ACME''"
    by (simp_all add: js_index_def)
  have e2: "map (\<lambda>m. (js_String (fst m), js_index ?row (snd m))) (snd ?oli) =
      [(''Product__c'', Str ''Widget''), (''Quantity__c'', Num 10)]"
    by (simp add: js_index_def)
  from c1 c2 c3 show ?thesis unfolding e1 e2 by simp
qed

section \<open>Verification: processOliRecords\<close>

text \<open>
  The new revision is the highest revision plus one: 1 when the response has no records,
  and \<open>n + 1\<close> when its first record has revision \<open>n\<close>.
\<close>

lemma next_revision:
  "getHighestRevisionNumber None + 1 = 1"
  "getHighestRevisionNumber (Some []) + 1 = 1"
  "getHighestRevisionNumber (Some (FieldNum n # rest)) + 1 = n + 1"
  by (simp_all add: getHighestRevisionNumber_def)

lemma fst_set_update: "fst ` set (AList.update k v al) = insert k (fst ` set al)"
  by (induction al) auto

lemma stamp_fresh:
  assumes "''Version_Number__c'' \<notin> fst ` set rec" and "''Active__c'' \<notin> fst ` set rec"
  shows "stamp oppId n rec =
           AList.update ''opportunity_id__c'' oppId rec @
           [(''Active__c'', Bool True), (''Version_Number__c'', Num n)]"
proof -
  let ?r1 = "AList.update ''opportunity_id__c'' oppId rec"
  have a: "''Active__c'' \<notin> fst ` set ?r1"
    using assms(2) by (simp add: fst_set_update)
  have r2: "AList.update ''Active__c'' (Bool True) ?r1 = ?r1 @ [(''Active__c'', Bool True)]"
    by (rule update_fresh [OF a])
  have v: "''Version_Number__c'' \<notin> fst ` set (?r1 @ [(''Active__c'', Bool True)])"
    using assms(1) by (simp add: fst_set_update)
  show ?thesis
    unfolding stamp_def r2 using update_fresh [OF v] by simp
qed

lemma flatten_stamped:
  assumes "''Version_Number__c'' \<notin> fst ` set rec" and "''Active__c'' \<notin> fst ` set rec"
  shows "map_of (flatten_record (stamp oppId n rec)) ''Version_Number__c'' = Some (Num n)"
    and "map_of (flatten_record (stamp oppId n rec)) ''Active__c'' = Some (Bool True)"
  unfolding stamp_fresh [OF assms] flatten_record_def
  by (simp_all add: flatten_key_def map_of_assign)

lemma distinct_flatten_key:
  "distinct (map fst acc) \<Longrightarrow> distinct (map fst (flatten_key acc kv))"
  by (simp add: flatten_key_def distinct_foldl_assign assign_def distinct_update)

lemma distinct_flatten_record: "distinct (map fst (flatten_record rec))"
proof -
  have "distinct (map fst acc) \<Longrightarrow> distinct (map fst (foldl flatten_key acc r))" for acc r
    by (induction r arbitrary: acc) (simp_all add: distinct_flatten_key)
  from this [of "[]" rec] show ?thesis by (simp add: flatten_record_def)
qed

lemma map_of_foldl_assign_distinct:
  assumes "distinct (map fst kvs)" and "map_of kvs k = Some v"
  shows "map_of (foldl assign acc kvs) k = Some v"
proof -
  from assms(2) have "(k, v) \<in> set kvs" by (rule map_of_SomeD)
  then obtain earlier later where split: "kvs = earlier @ (k, v) # later"
    by (auto simp: in_set_conv_decomp)
  have "k \<notin> fst ` set later"
    using assms(1) unfolding split by auto
  then show ?thesis
    unfolding split by (rule map_of_foldl_assign_last)
qed

lemma line_item_record_keeps:
  assumes "distinct (map fst item)"
    and "k \<noteq> ''Sales_Discount__c''" and "k \<noteq> ''opportunity_id__c''"
    and "map_of item k = Some v"
  shows "map_of (line_item_record times100 oppId item) k = Some v"
proof -
  let ?item1 = "AList.update ''opportunity_id__c'' oppId item"
  let ?item2 = "AList.update ''Sales_Discount__c'' (times100 (obj_get ?item1 ''Sales_Discount__c'')) ?item1"
  have d: "distinct (map fst ?item2)"
    using assms(1) by (simp add: distinct_update)
  have m: "map_of ?item2 k = Some v"
    using assms(2-4) by (simp add: update_conv')
  show ?thesis
    unfolding line_item_record_def Let_def by (rule map_of_foldl_assign_distinct [OF d m])
qed

lemma line_item_record_parent:
  assumes "distinct (map fst item)"
  shows "map_of (line_item_record times100 oppId item) ''opportunity_id__c'' = Some oppId"
proof -
  let ?item1 = "AList.update ''opportunity_id__c'' oppId item"
  let ?item2 = "AList.update ''Sales_Discount__c'' (times100 (obj_get ?item1 ''Sales_Discount__c'')) ?item1"
  have d: "distinct (map fst ?item2)"
    using assms(1) by (simp add: distinct_update)
  have m: "map_of ?item2 ''opportunity_id__c'' = Some oppId"
    by (simp add: update_conv')
  show ?thesis
    unfolding line_item_record_def Let_def by (rule map_of_foldl_assign_distinct [OF d m])
qed

text \<open>
  The discount sent is the product \<open>times100\<close> of the discount of the flattened record,
  taken once; what that product is numerically is outside the model.
\<close>

lemma line_item_record_discount:
  assumes "distinct (map fst item)"
  shows "map_of (line_item_record times100 oppId item) ''Sales_Discount__c'' =
           Some (times100 (obj_get item ''Sales_Discount__c''))"
proof -
  let ?item1 = "AList.update ''opportunity_id__c'' oppId item"
  let ?item2 = "AList.update ''Sales_Discount__c'' (times100 (obj_get ?item1 ''Sales_Discount__c'')) ?item1"
  have same: "obj_get ?item1 ''Sales_Discount__c'' = obj_get item ''Sales_Discount__c''"
    by (simp add: obj_get_def update_conv')
  have d: "distinct (map fst ?item2)"
    using assms by (simp add: distinct_update)
  have m: "map_of ?item2 ''Sales_Discount__c'' = Some (times100 (obj_get item ''Sales_Discount__c''))"
    unfolding same by (simp add: update_conv')
  show ?thesis
    unfolding line_item_record_def Let_def by (rule map_of_foldl_assign_distinct [OF d m])
qed

lemma processOliRecords_submitted:
  assumes "processOliRecords JSON_parse times100 ss sf = Inr result"
    and "buildDataTableFromParamsDynamic JSON_parse ss = Inr oliData"
    and "oppId = js_get (obj_get (hd oliData) ''jellyfish_line_item__c'') ''opportunity_id__c''"
  shows "\<exists>records.
           query_highest_revision sf oppId = Inr records \<and>
           submitted result =
             map (\<lambda>rec. line_item_record times100 oppId
                          (flatten_record (stamp oppId (getHighestRevisionNumber records + 1) rec)))
               oliData"
  using assms
  by (auto simp: processOliRecords_def createLineItems_def formatOLIs_def Let_def comp_def
      split: sum.splits list.splits if_splits)

text \<open>
  When no record of the table has a top-level property named \<^verbatim>\<open>Version_Number__c\<close> or
  \<^verbatim>\<open>Active__c\<close> of its own, every record of the insert request carries the new revision,
  the active flag and the parent id.
\<close>

lemma processOliRecords_stamps:
  assumes "processOliRecords JSON_parse times100 ss sf = Inr result"
    and "buildDataTableFromParamsDynamic JSON_parse ss = Inr oliData"
    and "\<forall>rec \<in> set oliData.
           ''Version_Number__c'' \<notin> fst ` set rec \<and> ''Active__c'' \<notin> fst ` set rec"
  shows "\<exists>oppId records.
           query_highest_revision sf oppId = Inr records \<and>
           length (submitted result) = length oliData \<and>
           (\<forall>sent \<in> set (submitted result).
              map_of sent ''Version_Number__c'' = Some (Num (getHighestRevisionNumber records + 1)) \<and>
              map_of sent ''Active__c'' = Some (Bool True) \<and>
              map_of sent ''opportunity_id__c'' = Some oppId)"
proof -
  define oppId where
    "oppId = js_get (obj_get (hd oliData) ''jellyfish_line_item__c'') ''opportunity_id__c''"
  from processOliRecords_submitted [OF assms(1) assms(2) oppId_def]
  obtain records where q: "query_highest_revision sf oppId = Inr records"
    and s: "submitted result =
             map (\<lambda>rec. line_item_record times100 oppId
                          (flatten_record (stamp oppId (getHighestRevisionNumber records + 1) rec)))
               oliData"
    by auto
  let ?n = "getHighestRevisionNumber records + 1"
  have each: "map_of (line_item_record times100 oppId (flatten_record (stamp oppId ?n rec)))
                ''Version_Number__c'' = Some (Num ?n) \<and>
              map_of (line_item_record times100 oppId (flatten_record (stamp oppId ?n rec)))
                ''Active__c'' = Some (Bool True) \<and>
              map_of (line_item_record times100 oppId (flatten_record (stamp oppId ?n rec)))
                ''opportunity_id__c'' = Some oppId"
    if "rec \<in> set oliData" for rec
  proof -
    have f: "''Version_Number__c'' \<notin> fst ` set rec" "''Active__c'' \<notin> fst ` set rec"
      using assms(3) that by auto
    let ?flat = "flatten_record (stamp oppId ?n rec)"
    have d: "distinct (map fst ?flat)" by (rule distinct_flatten_record)
    have "map_of (line_item_record times100 oppId ?flat) ''Version_Number__c'' = Some (Num ?n)"
      by (rule line_item_record_keeps [OF d _ _ flatten_stamped(1) [OF f]]) simp_all
    moreover have "map_of (line_item_record times100 oppId ?flat) ''Active__c'' = Some (Bool True)"
      by (rule line_item_record_keeps [OF d _ _ flatten_stamped(2) [OF f]]) simp_all
    moreover have "map_of (line_item_record times100 oppId ?flat) ''opportunity_id__c'' = Some oppId"
      by (rule line_item_record_parent [OF d])
    ultimately show ?thesis by simp
  qed
  have "length (submitted result) = length oliData"
    unfolding s by simp
  moreover have "\<forall>sent \<in> set (submitted result).
              map_of sent ''Version_Number__c'' = Some (Num ?n) \<and>
              map_of sent ''Active__c'' = Some (Bool True) \<and>
              map_of sent ''opportunity_id__c'' = Some oppId"
    unfolding s using each by auto
  ultimately show ?thesis using q by blast
qed

lemma processOliRecords_stamps_example:
  "\<exists>result. processOliRecords sample_parse times100 line_item_ss sample_sf = Inr result \<and>
     length (submitted result) = 2 \<and>
     (\<forall>sent \<in> set (submitted result).
        map_of sent ''Version_Number__c'' = Some (Num 6) \<and>
        map_of sent ''Active__c'' = Some (Bool True) \<and>
        map_of sent ''opportunity_id__c'' = Some (Str ''006A''))"
proof -
  let ?oliData =
    "[[(''jellyfish_line_item__c'', Obj [(''opportunity_id__c'', Str ''006A''), (''Quantity__c'', Num 10)])],
      [(''jellyfish_line_item__c'', Obj [(''opportunity_id__c'', Str ''006A''), (''Quantity__c'', Num 3)])]]"
  have table: "buildDataTableFromParamsDynamic sample_parse line_item_ss = Inr ?oliData"
    by code_simp
  have fresh: "\<forall>rec \<in> set ?oliData.
      ''Version_Number__c'' \<notin> fst ` set rec \<and> ''Active__c'' \<notin> fst ` set rec"
    by simp
  have "isl (processOliRecords sample_parse times100 line_item_ss sample_sf) = False"
    by code_simp
  then obtain result
    where run: "processOliRecords sample_parse times100 line_item_ss sample_sf = Inr result"
    by (cases "processOliRecords sample_parse times100 line_item_ss sample_sf") auto
  from processOliRecords_stamps [OF run table fresh]
  obtain oppId records where q: "query_highest_revision sample_sf oppId = Inr records"
    and len: "length (submitted result) = length ?oliData"
    and all: "\<forall>sent \<in> set (submitted result).
              map_of sent ''Version_Number__c'' = Some (Num (getHighestRevisionNumber records + 1)) \<and>
              map_of sent ''Active__c'' = Some (Bool True) \<and>
              map_of sent ''opportunity_id__c'' = Some oppId"
    by blast
  have records: "records = Some [FieldNum 5]"
    using q by (simp add: sample_sf_def)
  have six: "getHighestRevisionNumber (Some [FieldNum 5]) + 1 = 6"
    by (simp add: getHighestRevisionNumber_def)
  have parent: "\<forall>sent \<in> set (submitted result). map_of sent ''opportunity_id__c'' = Some (Str ''006A'')"
  proof -
    from processOliRecords_submitted [OF run table refl]
    obtain records' where s: "submitted result =
        map (\<lambda>rec. line_item_record times100
                     (js_get (obj_get (hd ?oliData) ''jellyfish_line_item__c'') ''opportunity_id__c'')
                     (flatten_record
                        (stamp (js_get (obj_get (hd ?oliData) ''jellyfish_line_item__c'') ''opportunity_id__c'')
                           (getHighestRevisionNumber records' + 1) rec)))
          ?oliData"
      by blast
    have p: "js_get (obj_get (hd ?oliData) ''jellyfish_line_item__c'') ''opportunity_id__c'' = Str ''006A''"
      by code_simp
    show ?thesis
      unfolding s p using line_item_record_parent [OF distinct_flatten_record] by simp
  qed
  from run len all parent show ?thesis
    unfolding records six by auto
qed

text \<open>
  Claim C5, at an input where the code breaks it. The sheet maps its column \<^verbatim>\<open>Rev\<close> to
  \<^verbatim>\<open>Version_Number__c\<close> both at the top level of the record and within the line-item
  group. The stamp replaces the top-level value by the new revision 6, and the flattening,
  which visits the line-item group after it, puts the cell value 7 back: the record sent
  carries revision 7, not 6.
\<close>

theorem processOliRecords_stamp_overwritten:
  "processOliRecords sample_parse times100 revision_ss sample_sf =
     Inr \<lparr>submitted =
            [[(''attributes'', Obj [(''type'', Str ''jellyfish_line_item__c'')]),
              (''Version_Number__c'', Num 7),
              (''opportunity_id__c'', Str ''006A''),
              (''Active__c'', Bool True),
              (''Sales_Discount__c'', times100 Undefined)]],
          deactivation = Arr [],
          insertion = Arr [Obj [(''success'', Bool True)]]\<rparr> \<and>
   getHighestRevisionNumber (Some [FieldNum 5]) + 1 = 6"
  by code_simp

end
